theory Spec2Isabelle
  imports Complex_Main
begin

section \<open>FRUITELL trainer: a shallow embedding of fruitell\_train.py\<close>

text \<open>
  The development follows \<^verbatim>\<open>src/fruitell_train.py\<close>. Each definition carries the name of
  the source function it embeds and keeps the order of its statements.

  Numbers. A Python \<^verbatim>\<open>float\<close> that takes part in arithmetic is modelled by a real
  number: arithmetic is exact, there is no rounding to 53 bits, and the values
  \<^verbatim>\<open>inf\<close>, \<^verbatim>\<open>-inf\<close> and \<^verbatim>\<open>nan\<close> do not occur. Only what \<^verbatim>\<open>float()\<close> reads from text
  can be one of these three values, since the parsers branch on them. Python's \<^verbatim>\<open>int\<close>
  is \<^typ>\<open>int\<close>. A statement that can raise is a branch of the model that returns the
  error.

  The two reader threads of a capture session are present through what they put on
  their queues; the serial port and the file system are present through the outcome of
  the calls made on them.
\<close>

datatype py_error =
    ZeroDivisionError
  | ValueError
  | TypeError
  | KeyError
  | SerialException

subsection \<open>Echo normalizer: \<^verbatim>\<open>scale_echo\<close> (lines 81--89)\<close>

text \<open>
  \<^verbatim>\<open>
  def scale_echo(echo_us, fa, sa):
      if fa == sa: sa = fa + 1.0
      lo, hi = (fa, sa) if fa < sa else (sa, fa)
      span = hi - lo
      x = (echo_us - lo) / span
      x = 0.0 if x < 0 else (1.0 if x > 1 else x)
      if fa < sa:
          x = 1.0 - x
      return x
  \<close>
  Python's float division raises \<^verbatim>\<open>ZeroDivisionError\<close> on a zero divisor; the model
  returns that error instead of HOL's \<open>x / 0 = 0\<close>.
\<close>

definition scale_echo :: "real \<Rightarrow> real \<Rightarrow> real \<Rightarrow> py_error + real" where
  "scale_echo echo_us fa sa0 =
     (let sa = (if fa = sa0 then fa + 1 else sa0);
          lo = (if fa < sa then fa else sa);
          hi = (if fa < sa then sa else fa);
          span = hi - lo
      in if span = 0 then Inl ZeroDivisionError
         else
           (let x0 = (echo_us - lo) / span;
                x1 = (if x0 < 0 then 0 else (if x0 > 1 then 1 else x0))
            in Inr (if fa < sa then 1 - x1 else x1)))"

text \<open>
  The normalizer as the specification words it (section 4.2): perturb the spoil anchor
  when the anchors are equal, take \<open>lo\<close>, \<open>hi\<close> and \<open>span\<close>, clamp the quotient to the
  unit interval, and invert when the fresh anchor is the smaller one.
\<close>

definition clamp01 :: "real \<Rightarrow> real" where
  "clamp01 x = max 0 (min 1 x)"

definition spec_spoil :: "real \<Rightarrow> real \<Rightarrow> real" where
  "spec_spoil fa sa = (if fa = sa then fa + 1 else sa)"

definition spec_span :: "real \<Rightarrow> real \<Rightarrow> real" where
  "spec_span fa sa = max fa (spec_spoil fa sa) - min fa (spec_spoil fa sa)"

definition normalize_spec :: "real \<Rightarrow> real \<Rightarrow> real \<Rightarrow> real" where
  "normalize_spec e fa sa =
     (let x = clamp01 ((e - min fa (spec_spoil fa sa)) / spec_span fa sa)
      in if fa < spec_spoil fa sa then 1 - x else x)"

subsection \<open>Data model\<close>

text \<open>
  \<^verbatim>\<open>Sample\<close> is the dataclass of lines 28--33. A telemetry reading is the dictionary the
  two line parsers build (keys \<^verbatim>\<open>ts_ms\<close>, \<^verbatim>\<open>echo_us\<close>, \<^verbatim>\<open>mad_us\<close>, \<^verbatim>\<open>fresh_pct\<close>,
  \<^verbatim>\<open>conf_pct\<close>, \<^verbatim>\<open>fresh_anchor\<close>, \<^verbatim>\<open>spoil_anchor\<close>); its selectors carry the prefix
  \<open>rec_\<close>, after the variable \<^verbatim>\<open>rec\<close> that holds it, to keep them apart from the
  attributes of \<^verbatim>\<open>Sample\<close>. The type of the float fields is a parameter: the numeric
  code works on \<^typ>\<open>real\<close>, the line parser fills the fields with what \<^verbatim>\<open>float()\<close>
  returns, which may be non-finite.
\<close>

record 'f Sample =
  echo_us :: 'f
  label :: int
  fresh_anchor :: 'f
  spoil_anchor :: 'f

record 'f TelemetryRecord =
  rec_ts_ms :: int
  rec_echo_us :: 'f
  rec_mad_us :: 'f
  rec_fresh_pct :: 'f
  rec_conf_pct :: 'f
  rec_fresh_anchor :: 'f
  rec_spoil_anchor :: 'f

subsection \<open>Capture: the consumer loop of \<^verbatim>\<open>capture_mode\<close> (lines 259--310)\<close>

text \<open>
  The loop's variables \<^verbatim>\<open>rows\<close>, \<^verbatim>\<open>rec_current\<close> and \<^verbatim>\<open>saved\<close> form the state.
  \<^verbatim>\<open>last_seen\<close> only drives the "no data" hint and text written to the terminal is
  output only; neither is part of the state. \<^verbatim>\<open>rec_current\<close> is \<^verbatim>\<open>None\<close> or a parsed
  dictionary (which has seven keys, so it is truthy in \<^verbatim>\<open>if rec_current\<close>).
\<close>

record capture_state =
  rows :: "real Sample list"
  rec_current :: "real TelemetryRecord option"
  saved :: nat

definition capture_init :: capture_state where
  "capture_init = \<lparr>rows = [], rec_current = None, saved = 0\<rparr>"

text \<open>
  Line 272:
  \<^verbatim>\<open>conf = rec["conf_pct"] if rec["conf_pct"] > 0
         else max(0.0, (1.0 - (rec["mad_us"]/(120.0*2))) * 100.0)\<close>.
  Python's \<^verbatim>\<open>max(a, b)\<close> returns \<open>b\<close> when \<open>b > a\<close> and \<open>a\<close> otherwise.
\<close>

definition confidence :: "real TelemetryRecord \<Rightarrow> real" where
  "confidence rec =
     (if rec_conf_pct rec > 0 then rec_conf_pct rec
      else (let proxy = (1 - rec_mad_us rec / (120 * 2)) * 100
            in if proxy > 0 then proxy else 0))"

text \<open>
  Lines 269--279, for a record taken from the queue: the slot is assigned first, then
  \<^verbatim>\<open>scale_echo\<close> is called for the status line; an exception of that call leaves the loop.
\<close>

definition consume_record ::
  "real \<Rightarrow> real TelemetryRecord \<Rightarrow> capture_state \<Rightarrow> py_error + capture_state" where
  "consume_record min_conf rec st =
     (let conf = confidence rec
      in if conf \<ge> min_conf then
           (let st' = st\<lparr>rec_current := Some rec\<rparr>
            in case scale_echo (rec_echo_us rec) (rec_fresh_anchor rec) (rec_spoil_anchor rec) of
                 Inl e \<Rightarrow> Inl e
               | Inr x \<Rightarrow> Inr st')
         else Inr st)"

text \<open>
  Lines 289--305, for the key taken from the key queue (the empty string when the queue
  is empty). The second component says whether the loop stops (\<^verbatim>\<open>break\<close>).
\<close>

definition handle_key :: "string \<Rightarrow> capture_state \<Rightarrow> capture_state \<times> bool" where
  "handle_key key st =
     (if key = ''f'' \<or> key = ''s'' then
        (case rec_current st of
           Some rc \<Rightarrow>
             (let lab = (if key = ''f'' then 1 else 0)
              in (st\<lparr>rows := rows st @ [\<lparr>echo_us = rec_echo_us rc, label = lab,
                                           fresh_anchor = rec_fresh_anchor rc,
                                           spoil_anchor = rec_spoil_anchor rc\<rparr>],
                     saved := saved st + 1,
                     rec_current := None\<rparr>, False))
         | None \<Rightarrow> (st, False))
      else if key = ''q'' then (st, True)
      else (st, False))"

text \<open>
  One iteration of \<^verbatim>\<open>while True\<close>: what the record queue delivered within the timeout
  (\<open>None\<close> for \<^verbatim>\<open>queue.Empty\<close>), then the key.
\<close>

definition loop_body ::
  "real \<Rightarrow> real TelemetryRecord option \<times> string \<Rightarrow> capture_state
   \<Rightarrow> py_error + capture_state \<times> bool" where
  "loop_body min_conf ev st =
     (case (case fst ev of None \<Rightarrow> Inr st | Some rec \<Rightarrow> consume_record min_conf rec st) of
        Inl e \<Rightarrow> Inl e
      | Inr st1 \<Rightarrow> Inr (handle_key (snd ev) st1))"

text \<open>
  The loop over the iterations the two queues give rise to. It ends at the first
  \<^verbatim>\<open>q\<close>; the list ends where the observation of the session ends.
\<close>

fun capture_loop ::
  "real \<Rightarrow> (real TelemetryRecord option \<times> string) list \<Rightarrow> capture_state
   \<Rightarrow> py_error + capture_state" where
  "capture_loop min_conf [] st = Inr st"
| "capture_loop min_conf (ev # evs) st =
     (case loop_body min_conf ev st of
        Inl e \<Rightarrow> Inl e
      | Inr (st1, stop) \<Rightarrow> if stop then Inr st1 else capture_loop min_conf evs st1)"

subsection \<open>Teardown: the \<^verbatim>\<open>finally\<close> blocks (lines 312--318 and 364--367)\<close>

text \<open>
  \<^verbatim>\<open>
  finally:
      try: ser.write(b"TRAIN:OFF\n"); print("\n[device] TRAIN:OFF")
      except: pass
      ser.close(); print("[serial] closed")

  if args.out:
      save_csv(args.out, rows)
  \<close>
  The serial port is the environment: each of the two calls succeeds or raises, as the
  environment decides. The write stands inside \<^verbatim>\<open>try ... except: pass\<close>, the close
  does not. An exception that leaves the \<^verbatim>\<open>finally\<close> block replaces the one that
  entered it.
\<close>

datatype io_result = Succeeds | Raises py_error

definition session_teardown :: "io_result \<Rightarrow> io_result \<Rightarrow> py_error + unit" where
  "session_teardown write_off close_port =
     (let swallowed = (case write_off of Succeeds \<Rightarrow> () | Raises e \<Rightarrow> ())
      in case close_port of Succeeds \<Rightarrow> Inr () | Raises e \<Rightarrow> Inl e)"

text \<open>
  The end of \<^verbatim>\<open>capture_mode\<close>: \<open>body\<close> is how the loop ended, \<open>out\<close> whether
  \<^verbatim>\<open>args.out\<close> is set. The result is the exception that leaves \<^verbatim>\<open>capture_mode\<close>, or
  the samples handed to \<^verbatim>\<open>save_csv\<close> (\<open>None\<close> when nothing is saved).
\<close>

definition capture_mode_finish ::
  "py_error + capture_state \<Rightarrow> io_result \<Rightarrow> io_result \<Rightarrow> bool
   \<Rightarrow> py_error + real Sample list option" where
  "capture_mode_finish body write_off close_port out =
     (case session_teardown write_off close_port of
        Inl e \<Rightarrow> Inl e
      | Inr u \<Rightarrow>
          (case body of
             Inl e \<Rightarrow> Inl e
           | Inr st \<Rightarrow> Inr (if out then Some (rows st) else None)))"

subsection \<open>Strings and numbers as text\<close>

text \<open>
  A Python \<^verbatim>\<open>str\<close> is a \<^typ>\<open>string\<close>: a list of characters with code points below
  256. The functions of this subsection model the built-ins the source calls on
  strings: \<^verbatim>\<open>str.split\<close>, \<^verbatim>\<open>str.strip\<close>, \<^verbatim>\<open>str.join\<close>, \<^verbatim>\<open>float()\<close>, \<^verbatim>\<open>int()\<close>,
  \<^verbatim>\<open>str()\<close> of an int and the format specification \<^verbatim>\<open>.Nf\<close>.
\<close>

definition is_digit :: "char \<Rightarrow> bool" where
  "is_digit c \<longleftrightarrow> 48 \<le> (of_char c :: nat) \<and> (of_char c :: nat) \<le> 57"

definition digit_val :: "char \<Rightarrow> nat" where
  "digit_val c = of_char c - 48"

definition digit_char :: "nat \<Rightarrow> char" where
  "digit_char n = ''0123456789'' ! n"

definition nat_of_digits :: "string \<Rightarrow> nat" where
  "nat_of_digits ds = foldl (\<lambda>a c. 10 * a + digit_val c) 0 ds"

fun digits_of :: "nat \<Rightarrow> string" where
  "digits_of n =
     (if n < 10 then [digit_char n] else digits_of (n div 10) @ [digit_char (n mod 10)])"

declare digits_of.simps [simp del]

text \<open>\<^verbatim>\<open>str(n)\<close> for an int.\<close>

definition str_int :: "int \<Rightarrow> string" where
  "str_int n = (if n < 0 then ''-'' else []) @ digits_of (nat \<bar>n\<bar>)"

text \<open>
  \<^verbatim>\<open>str.isspace\<close> on the code points below 256 (what \<^verbatim>\<open>str.strip()\<close> removes), and the
  white space \<^verbatim>\<open>float()\<close> and \<^verbatim>\<open>int()\<close> remove around their argument: they turn the
  spaces above 127 into blanks and then strip the C white space.
\<close>

definition is_space :: "char \<Rightarrow> bool" where
  "is_space c \<longleftrightarrow> (of_char c :: nat) \<in> set [9, 10, 11, 12, 13, 28, 29, 30, 31, 32, 133, 160]"

definition is_num_space :: "char \<Rightarrow> bool" where
  "is_num_space c \<longleftrightarrow> (of_char c :: nat) \<in> set [9, 10, 11, 12, 13, 32, 133, 160]"

definition strip_with :: "(char \<Rightarrow> bool) \<Rightarrow> string \<Rightarrow> string" where
  "strip_with sp s = rev (dropWhile sp (rev (dropWhile sp s)))"

definition strip :: "string \<Rightarrow> string" where
  "strip s = strip_with is_space s"

text \<open>\<^verbatim>\<open>s.split(sep)\<close> for a one-character separator: never empty, one part more than
  there are separators.\<close>

fun split_on :: "char \<Rightarrow> string \<Rightarrow> string list" where
  "split_on d [] = [[]]"
| "split_on d (c # cs) =
     (if c = d then [] # split_on d cs
      else (case split_on d cs of p # ps \<Rightarrow> (c # p) # ps | [] \<Rightarrow> [[c]]))"

text \<open>\<^verbatim>\<open>sep.join(parts)\<close>.\<close>

fun join :: "string \<Rightarrow> string list \<Rightarrow> string" where
  "join sep [] = []"
| "join sep [p] = p"
| "join sep (p # q # ps) = p @ sep @ join sep (q # ps)"

text \<open>
  What \<^verbatim>\<open>float()\<close> returns. A finite value is the exact real the literal denotes (no
  rounding to the nearest double); the three non-finite values are kept apart, since
  \<^verbatim>\<open>float()\<close> reads them from text and \<^verbatim>\<open>int()\<close> raises on them.
\<close>

datatype pyfloat = Finite real | PosInf | NegInf | NaN

text \<open>
  An underscore in a numeric literal must stand between two digits (the first argument
  is the previous character).
\<close>

fun underscores_ok :: "char option \<Rightarrow> string \<Rightarrow> bool" where
  "underscores_ok prev [] = (prev \<noteq> Some CHR ''_'')"
| "underscores_ok prev (c # cs) =
     (if c = CHR ''_'' then
        (case prev of Some p \<Rightarrow> is_digit p | None \<Rightarrow> False) \<and> underscores_ok (Some c) cs
      else (prev \<noteq> Some CHR ''_'' \<or> is_digit c) \<and> underscores_ok (Some c) cs)"

definition drop_underscores :: "string \<Rightarrow> string" where
  "drop_underscores s = filter (\<lambda>c. c \<noteq> CHR ''_'') s"

definition split_sign :: "string \<Rightarrow> bool \<times> string" where
  "split_sign s =
     (case s of
        [] \<Rightarrow> (False, [])
      | c # r \<Rightarrow> if c = CHR ''-'' then (True, r) else if c = CHR ''+'' then (False, r)
                 else (False, s))"

definition to_lower :: "char \<Rightarrow> char" where
  "to_lower c =
     (if 65 \<le> (of_char c :: nat) \<and> (of_char c :: nat) \<le> 90 then char_of ((of_char c :: nat) + 32)
      else c)"

text \<open>
  An unsigned decimal literal: digits, an optional point and digits (at least one digit
  on either side), an optional exponent \<^verbatim>\<open>e\<close> or \<^verbatim>\<open>E\<close> with an optional sign and at
  least one digit.
\<close>

definition parse_decimal :: "string \<Rightarrow> real option" where
  "parse_decimal s =
     (let ip = takeWhile is_digit s;
          r1 = dropWhile is_digit s;
          has_point = (r1 \<noteq> [] \<and> hd r1 = CHR ''.'');
          fp = (if has_point then takeWhile is_digit (tl r1) else []);
          r2 = (if has_point then dropWhile is_digit (tl r1) else r1)
      in if ip = [] \<and> fp = [] then None
         else
           (let m = real (nat_of_digits (ip @ fp)) / 10 ^ length fp
            in case r2 of
                 [] \<Rightarrow> Some m
               | c # r \<Rightarrow>
                   if c = CHR ''e'' \<or> c = CHR ''E'' then
                     (let sg = split_sign r; ds = snd sg
                      in if ds \<noteq> [] \<and> list_all is_digit ds then
                           Some (if fst sg then m / 10 ^ nat_of_digits ds
                                 else m * 10 ^ nat_of_digits ds)
                         else None)
                   else None))"

text \<open>
  The largest double is \<open>2 ^ 1024 - 2 ^ 971\<close>; a literal of magnitude
  \<open>2 ^ 1024 - 2 ^ 970\<close> or more is read as an infinity.
\<close>

definition overflow_to_inf :: "real \<Rightarrow> pyfloat" where
  "overflow_to_inf v =
     (if \<bar>v\<bar> \<ge> 2 ^ 1024 - 2 ^ 970 then (if v > 0 then PosInf else NegInf) else Finite v)"

text \<open>\<^verbatim>\<open>float(s)\<close> for a string; \<open>None\<close> is \<^verbatim>\<open>ValueError\<close>.\<close>

definition py_float :: "string \<Rightarrow> pyfloat option" where
  "py_float s0 =
     (let s = strip_with is_num_space s0
      in if \<not> underscores_ok None s then None
         else
           (let sg = split_sign (drop_underscores s);
                u = snd sg;
                l = map to_lower u
            in if l = ''inf'' \<or> l = ''infinity'' then Some (if fst sg then NegInf else PosInf)
               else if l = ''nan'' then Some NaN
               else (case parse_decimal u of
                       None \<Rightarrow> None
                     | Some m \<Rightarrow> Some (overflow_to_inf (if fst sg then - m else m)))))"

text \<open>\<^verbatim>\<open>int(x)\<close> for a float: truncation towards zero; \<open>None\<close> is the \<^verbatim>\<open>ValueError\<close>
  or \<^verbatim>\<open>OverflowError\<close> raised on a non-finite value.\<close>

definition py_int_of_float :: "pyfloat \<Rightarrow> int option" where
  "py_int_of_float x =
     (case x of
        Finite v \<Rightarrow> Some (if v \<ge> 0 then \<lfloor>v\<rfloor> else \<lceil>v\<rceil>)
      | PosInf \<Rightarrow> None
      | NegInf \<Rightarrow> None
      | NaN \<Rightarrow> None)"

text \<open>\<^verbatim>\<open>int(s)\<close> for a string in base 10; \<open>None\<close> is \<^verbatim>\<open>ValueError\<close>.\<close>

definition py_int :: "string \<Rightarrow> int option" where
  "py_int s0 =
     (let sg = split_sign (strip_with is_num_space s0);
          u = snd sg;
          ds = drop_underscores u
      in if ds \<noteq> [] \<and> underscores_ok None u \<and> list_all is_digit ds then
           Some (if fst sg then - int (nat_of_digits ds) else int (nat_of_digits ds))
         else None)"

text \<open>
  The format specification \<^verbatim>\<open>.Nf\<close> (as in \<^verbatim>\<open>f"{v:.3f}"\<close>) for \<open>N\<close> of at least 1, as the
  modelled code uses it: the value rounded to \<open>d\<close> decimals, ties to even, with a minus
  sign for every negative value (also one that rounds to zero), at least one digit
  before the point and \<open>d\<close> digits after it.
\<close>

definition round_half_even :: "real \<Rightarrow> int" where
  "round_half_even x =
     (let f = \<lfloor>x\<rfloor>; r = x - of_int f
      in if r < 1 / 2 then f else if r > 1 / 2 then f + 1 else if even f then f else f + 1)"

definition format_fixed :: "nat \<Rightarrow> real \<Rightarrow> string" where
  "format_fixed d v =
     (let q = nat (round_half_even (\<bar>v\<bar> * 10 ^ d));
          ip = digits_of (q div 10 ^ d);
          fp = digits_of (q mod 10 ^ d)
      in (if v < 0 then ''-'' else []) @ ip @ ''.'' @ replicate (d - length fp) CHR ''0'' @ fp)"

subsection \<open>Line protocol parser: \<^verbatim>\<open>parse_device_csv_line\<close> (lines 47--63)\<close>

text \<open>
  \<^verbatim>\<open>
  def parse_device_csv_line(line: str):
      try:
          parts = [p.strip() for p in line.split(",")]
          if len(parts) < 7:
              return None
          return { "ts_ms": int(float(parts[0])), "echo_us": float(parts[1]),
                   "mad_us": float(parts[2]), "fresh_pct": float(parts[3]),
                   "conf_pct": float(parts[4]), "fresh_anchor": float(parts[5]),
                   "spoil_anchor": float(parts[6]) }
      except:
          return None
  \<close>
  Every exception of the body ends in \<^verbatim>\<open>return None\<close>, so the result is an option.
\<close>

definition csv_parts :: "string \<Rightarrow> string list" where
  "csv_parts line = map strip (split_on CHR '','' line)"

definition parse_device_csv_line :: "string \<Rightarrow> pyfloat TelemetryRecord option" where
  "parse_device_csv_line line =
     (let parts = csv_parts line
      in if length parts < 7 then None
         else
           (case py_float (parts ! 0) of None \<Rightarrow> None | Some t \<Rightarrow>
           (case py_int_of_float t of None \<Rightarrow> None | Some ts \<Rightarrow>
           (case py_float (parts ! 1) of None \<Rightarrow> None | Some e \<Rightarrow>
           (case py_float (parts ! 2) of None \<Rightarrow> None | Some m \<Rightarrow>
           (case py_float (parts ! 3) of None \<Rightarrow> None | Some f \<Rightarrow>
           (case py_float (parts ! 4) of None \<Rightarrow> None | Some c \<Rightarrow>
           (case py_float (parts ! 5) of None \<Rightarrow> None | Some fa \<Rightarrow>
           (case py_float (parts ! 6) of None \<Rightarrow> None | Some sa \<Rightarrow>
              Some \<lparr>rec_ts_ms = ts, rec_echo_us = e, rec_mad_us = m, rec_fresh_pct = f,
                    rec_conf_pct = c, rec_fresh_anchor = fa,
                    rec_spoil_anchor = sa\<rparr>)))))))))"

subsection \<open>Weight serializer: \<^verbatim>\<open>emit_W_line\<close> (lines 108--112)\<close>

text \<open>
  \<^verbatim>\<open>
  def emit_W_line(w_fmed, b):
      weights = [0.0]*10
      weights[0] = w_fmed
      w_txt = ",".join(f"{v:.6f}" for v in weights)
      return f"W:{w_txt},{b:.6f}"
  \<close>
\<close>

definition emit_W_line :: "real \<Rightarrow> real \<Rightarrow> string" where
  "emit_W_line w_fmed b =
     (let weights = (replicate 10 0)[0 := w_fmed];
          w_txt = join '','' (map (format_fixed 6) weights)
      in ''W:'' @ w_txt @ '','' @ format_fixed 6 b)"

subsection \<open>Sample store: \<^verbatim>\<open>save_csv\<close> and \<^verbatim>\<open>load_csv\<close> (lines 140--160)\<close>

text \<open>
  A CSV file is the list of its rows, each a list of fields: the lexical layer of the
  \<^verbatim>\<open>csv\<close> module (delimiters, quoting, line ends) is not modelled, nor is the file
  system. \<^verbatim>\<open>save_csv\<close> gives the rows it writes:
  \<^verbatim>\<open>
  w.writerow(["echo_us","label","fresh_anchor","spoil_anchor"])
  for r in rows:
      w.writerow([f"{r.echo_us:.3f}", r.label,
                  f"{r.fresh_anchor:.3f}", f"{r.spoil_anchor:.3f}"])
  \<close>
  The writer turns the int \<^verbatim>\<open>r.label\<close> into text with \<^verbatim>\<open>str\<close>.
\<close>

definition save_csv :: "real Sample list \<Rightarrow> string list list" where
  "save_csv rs =
     [''echo_us'', ''label'', ''fresh_anchor'', ''spoil_anchor'']
     # map (\<lambda>r. [format_fixed 3 (echo_us r), str_int (label r),
                   format_fixed 3 (fresh_anchor r), format_fixed 3 (spoil_anchor r)]) rs"

text \<open>
  \<^verbatim>\<open>csv.DictReader\<close>: the first row holds the field names; every later row that is not
  empty becomes a dictionary. A row shorter than the header gets \<^verbatim>\<open>None\<close> for the
  missing fields, the surplus of a longer row is stored under the key \<^verbatim>\<open>None\<close>. The
  dictionary is an association list in which the last binding of a key counts.
\<close>

definition dict_row :: "string list \<Rightarrow> string list \<Rightarrow> (string \<times> string option) list" where
  "dict_row fieldnames row =
     zip fieldnames (map Some row @ replicate (length fieldnames - length row) None)"

definition dict_get :: "(string \<times> string option) list \<Rightarrow> string \<Rightarrow> string option option" where
  "dict_get d k = map_of (rev d) k"

text \<open>\<^verbatim>\<open>float(v)\<close> and \<^verbatim>\<open>int(v)\<close> for a value of the dictionary: \<^verbatim>\<open>TypeError\<close> on
  \<^verbatim>\<open>None\<close>, \<^verbatim>\<open>ValueError\<close> on text that does not parse.\<close>

definition float_of_value :: "string option \<Rightarrow> py_error + pyfloat" where
  "float_of_value v =
     (case v of
        None \<Rightarrow> Inl TypeError
      | Some s \<Rightarrow> (case py_float s of None \<Rightarrow> Inl ValueError | Some x \<Rightarrow> Inr x))"

definition int_of_value :: "string option \<Rightarrow> py_error + int" where
  "int_of_value v =
     (case v of
        None \<Rightarrow> Inl TypeError
      | Some s \<Rightarrow> (case py_int s of None \<Rightarrow> Inl ValueError | Some n \<Rightarrow> Inr n))"

text \<open>
  \<^verbatim>\<open>
  Sample(echo_us=float(row["echo_us"]),
         label=int(row["label"]),
         fresh_anchor=float(row.get("fresh_anchor", "1400")),
         spoil_anchor=float(row.get("spoil_anchor", "2600")))
  \<close>
\<close>

definition load_row :: "(string \<times> string option) list \<Rightarrow> py_error + pyfloat Sample" where
  "load_row d =
     (case dict_get d ''echo_us'' of
        None \<Rightarrow> Inl KeyError
      | Some ve \<Rightarrow>
     (case float_of_value ve of
        Inl err \<Rightarrow> Inl err
      | Inr e \<Rightarrow>
     (case dict_get d ''label'' of
        None \<Rightarrow> Inl KeyError
      | Some vl \<Rightarrow>
     (case int_of_value vl of
        Inl err \<Rightarrow> Inl err
      | Inr l \<Rightarrow>
     (case float_of_value (case dict_get d ''fresh_anchor'' of None \<Rightarrow> Some ''1400'' | Some v \<Rightarrow> v) of
        Inl err \<Rightarrow> Inl err
      | Inr fa \<Rightarrow>
     (case float_of_value (case dict_get d ''spoil_anchor'' of None \<Rightarrow> Some ''2600'' | Some v \<Rightarrow> v) of
        Inl err \<Rightarrow> Inl err
      | Inr sa \<Rightarrow>
          Inr \<lparr>echo_us = e, label = l, fresh_anchor = fa, spoil_anchor = sa\<rparr>))))))"

fun load_rows :: "string list \<Rightarrow> string list list \<Rightarrow> py_error + pyfloat Sample list" where
  "load_rows fieldnames [] = Inr []"
| "load_rows fieldnames (row # rest) =
     (if row = [] then load_rows fieldnames rest
      else (case load_row (dict_row fieldnames row) of
              Inl err \<Rightarrow> Inl err
            | Inr smp \<Rightarrow>
                (case load_rows fieldnames rest of
                   Inl err \<Rightarrow> Inl err
                 | Inr smps \<Rightarrow> Inr (smp # smps))))"

definition load_csv :: "string list list \<Rightarrow> py_error + pyfloat Sample list" where
  "load_csv file = (case file of [] \<Rightarrow> Inr [] | fieldnames # rest \<Rightarrow> load_rows fieldnames rest)"

subsection \<open>Model fitter: \<^verbatim>\<open>fit_logistic_1d\<close> and \<^verbatim>\<open>train_from_csv\<close> (lines 91--106, 320--337)\<close>

text \<open>
  \<^verbatim>\<open>np.median\<close> of a list: the middle element of the sorted list, or the mean of the two
  middle elements. For the empty list numpy returns \<^verbatim>\<open>nan\<close>, here \<open>None\<close>.
  \<^verbatim>\<open>np.mean\<close> is only applied to arrays that are not empty.
\<close>

definition np_median :: "real list \<Rightarrow> real option" where
  "np_median xs =
     (if xs = [] then None
      else
        (let s = sort xs; n = length xs
         in Some (if odd n then s ! (n div 2)
                  else (s ! (n div 2 - 1) + s ! (n div 2)) / 2)))"

definition np_mean :: "real list \<Rightarrow> real" where
  "np_mean xs = sum_list xs / real (length xs)"

text \<open>
  The fallback of \<^verbatim>\<open>fit_logistic_1d\<close>: 4000 steps of gradient descent from
  \<open>w = 0\<close>, \<open>b = 0\<close>, \<open>lr = 0.5\<close>.
  \<^verbatim>\<open>
  for _ in range(4000):
      z = b + w*X[:,0]
      yhat = 1.0/(1.0+np.exp(-z))
      db = np.mean(yhat - y)
      dw = np.mean((yhat - y) * X[:,0])
      w -= lr*dw; b -= lr*db; lr *= 0.9995
  \<close>
\<close>

fun gd_steps :: "nat \<Rightarrow> real list \<Rightarrow> real list \<Rightarrow> real \<times> real \<times> real \<Rightarrow> real \<times> real \<times> real" where
  "gd_steps 0 X y s = s"
| "gd_steps (Suc k) X y (w, b, lr) =
     (let z = map (\<lambda>x. b + w * x) X;
          yhat = map (\<lambda>v. 1 / (1 + exp (- v))) z;
          err = map2 (\<lambda>p q. p - q) yhat y;
          db = np_mean err;
          dw = np_mean (map2 (\<lambda>p q. p * q) err X)
      in gd_steps k X y (w - lr * dw, b - lr * db, lr * (9995 / 10000)))"

text \<open>
  \<open>sk\<close> is the solver of scikit-learn when that library could be imported
  (\<^verbatim>\<open>HAVE_SK\<close>); it is not code of this repository and stays a parameter.
\<close>

definition fit_logistic_1d ::
  "(real list \<Rightarrow> real list \<Rightarrow> real \<times> real) option \<Rightarrow> real list \<Rightarrow> int list \<Rightarrow> real \<times> real" where
  "fit_logistic_1d sk X y =
     (let yf = map real_of_int y
      in case sk of
           Some clf_fit \<Rightarrow> clf_fit X yf
         | None \<Rightarrow> (case gd_steps 4000 X yf (0, 0, 1 / 2) of (w, b, lr) \<Rightarrow> (w, b)))"

text \<open>
  \<^verbatim>\<open>[scale_echo(r.echo_us, fa, sa) for r in rows]\<close>: the first exception ends the
  comprehension.
\<close>

fun scale_all :: "real \<Rightarrow> real \<Rightarrow> real list \<Rightarrow> py_error + real list" where
  "scale_all fa sa [] = Inr []"
| "scale_all fa sa (e # es) =
     (case scale_echo e fa sa of
        Inl err \<Rightarrow> Inl err
      | Inr x \<Rightarrow> (case scale_all fa sa es of Inl err \<Rightarrow> Inl err | Inr xs \<Rightarrow> Inr (x # xs)))"

text \<open>
  \<^verbatim>\<open>
  def train_from_csv(args):
      rows = load_csv(args.csv)
      if not rows:
          print("No rows to train."); return
      fa = np.median([r.fresh_anchor for r in rows])
      sa = np.median([r.spoil_anchor for r in rows])
      X = np.array([scale_echo(r.echo_us, fa, sa) for r in rows], float).reshape(-1,1)
      y = np.array([r.label for r in rows], int)
      if len(set(y.tolist())) < 2:
          print("Need both classes."); return
      w,b = fit_logistic_1d(X,y)
      ...
      print(emit_W_line(w,b))
  \<close>
  The model starts from the loaded rows. It returns the computations carried out, in
  the order of the statements, and how the function ends: with one of the two reports
  of missing data, or with the fitted weight and bias and the weight line printed for
  the device. The accuracy and the anchors are printed only and left out.
  \<open>np_median\<close> gives \<open>None\<close> for the empty list only, which the first test has
  excluded by then; those two branches are never taken.
\<close>

datatype train_step =
    ComputeMedians real real
  | Normalize "real list"
  | Solve "real list" "int list"

datatype train_result =
    NoRows
  | NeedBothClasses
  | Trained real real string

definition train_from_csv ::
  "(real list \<Rightarrow> real list \<Rightarrow> real \<times> real) option \<Rightarrow> real Sample list
   \<Rightarrow> py_error + train_step list \<times> train_result" where
  "train_from_csv sk rs =
     (if rs = [] then Inr ([], NoRows)
      else
     (case np_median (map fresh_anchor rs) of
        None \<Rightarrow> Inr ([], NoRows)
      | Some fa \<Rightarrow>
     (case np_median (map spoil_anchor rs) of
        None \<Rightarrow> Inr ([], NoRows)
      | Some sa \<Rightarrow>
     (case scale_all fa sa (map echo_us rs) of
        Inl err \<Rightarrow> Inl err
      | Inr X \<Rightarrow>
          (let y = map label rs
           in if length (remdups y) < 2 then
                Inr ([ComputeMedians fa sa, Normalize X], NeedBothClasses)
              else
                (case fit_logistic_1d sk X y of
                   (w, b) \<Rightarrow>
                     Inr ([ComputeMedians fa sa, Normalize X, Solve X y],
                          Trained w b (emit_W_line w b))))))))"

text \<open>
  A median of a list, as a property of a value: at least half of the elements are at
  most \<open>m\<close>, and at least half are at least \<open>m\<close>.
\<close>

definition is_median :: "real \<Rightarrow> real list \<Rightarrow> bool" where
  "is_median m xs \<longleftrightarrow>
     length xs \<le> 2 * length (filter (\<lambda>x. x \<le> m) xs)
     \<and> length xs \<le> 2 * length (filter (\<lambda>x. m \<le> x) xs)"

text \<open>
  The value a fixed-point text of \<open>d\<close> decimals denotes: \<open>v\<close> rounded to \<open>d\<close>
  decimals, ties to even on the magnitude.
\<close>

definition round_to :: "nat \<Rightarrow> real \<Rightarrow> real" where
  "round_to d v =
     (if v < 0 then - (real_of_int (round_half_even (\<bar>v\<bar> * 10 ^ d)) / 10 ^ d)
      else real_of_int (round_half_even (\<bar>v\<bar> * 10 ^ d)) / 10 ^ d)"

text \<open>
  A text in fixed-point form with exactly \<open>d\<close> decimals: an optional minus sign, at
  least one digit, a point, \<open>d\<close> digits.
\<close>

definition has_decimals :: "nat \<Rightarrow> string \<Rightarrow> bool" where
  "has_decimals d s =
     (let u = snd (split_sign s);
          ip = takeWhile is_digit u;
          r = dropWhile is_digit u
      in (s = u \<or> s = CHR ''-'' # u) \<and> ip \<noteq> [] \<and> r \<noteq> [] \<and> hd r = CHR ''.''
         \<and> length (tl r) = d \<and> list_all is_digit (tl r))"

text \<open>
  What a sample is expected to be after it was saved and loaded again: the label as it
  was, each float field rounded to three decimals and read back by \<^verbatim>\<open>float()\<close>.
\<close>

definition loaded :: "real Sample \<Rightarrow> pyfloat Sample" where
  "loaded r = \<lparr>echo_us = overflow_to_inf (round_to 3 (echo_us r)), label = label r,
               fresh_anchor = overflow_to_inf (round_to 3 (fresh_anchor r)),
               spoil_anchor = overflow_to_inf (round_to 3 (spoil_anchor r))\<rparr>"

subsection \<open>Example inputs\<close>

text \<open>
  Two telemetry readings used in the worked examples below: one without a device
  confidence and with a dispersion of 60 (confidence 75 by the proxy), one with a device
  confidence of 90.
\<close>

abbreviation reading_a :: "real TelemetryRecord" where
  "reading_a \<equiv>
     \<lparr>rec_ts_ms = 1, rec_echo_us = 2000, rec_mad_us = 60, rec_fresh_pct = 0,
      rec_conf_pct = 0, rec_fresh_anchor = 1400, rec_spoil_anchor = 2600\<rparr>"

abbreviation reading_b :: "real TelemetryRecord" where
  "reading_b \<equiv>
     \<lparr>rec_ts_ms = 2, rec_echo_us = 1500, rec_mad_us = 10, rec_fresh_pct = 0,
      rec_conf_pct = 90, rec_fresh_anchor = 1400, rec_spoil_anchor = 2600\<rparr>"

section \<open>Properties\<close>

subsection \<open>Echo normalizer\<close>




lemma clamp01_code: "clamp01 x = (if x < 0 then 0 else if x > 1 then 1 else x)"
  by (simp add: clamp01_def max_def min_def)


lemma scale_echo_normalize: "scale_echo e fa sa = Inr (normalize_spec e fa sa)"
proof -
  consider "fa = sa" | "fa < sa" | "sa < fa" by linarith
  then show ?thesis
  proof cases
    case 1
    then show ?thesis
      by (simp add: scale_echo_def normalize_spec_def spec_span_def spec_spoil_def
          clamp01_code Let_def)
  next
    case 2
    then show ?thesis
      by (simp add: scale_echo_def normalize_spec_def spec_span_def spec_spoil_def
          clamp01_code Let_def)
  next
    case 3
    then show ?thesis
      by (simp add: scale_echo_def normalize_spec_def spec_span_def spec_spoil_def
          clamp01_code Let_def)
  qed
qed





subsection \<open>Capture loop\<close>

lemma scale_echo_Inr: "\<exists>x. scale_echo e fa sa = Inr x"
  by (simp add: scale_echo_normalize)

lemma consume_record_eq:
  "consume_record t rec st =
     Inr (if t \<le> confidence rec then st\<lparr>rec_current := Some rec\<rparr> else st)"
proof -
  obtain x where
    "scale_echo (rec_echo_us rec) (rec_fresh_anchor rec) (rec_spoil_anchor rec) = Inr x"
    using scale_echo_Inr by blast
  then show ?thesis by (simp add: consume_record_def Let_def)
qed

lemma confidence_max:
  "confidence rec =
     (if rec_conf_pct rec > 0 then rec_conf_pct rec
      else max 0 ((1 - rec_mad_us rec / (2 * 120)) * 100))"
  by (simp add: confidence_def Let_def max_def)

text \<open>
  Claim C8. The confidence of a consumed record is the device's \<open>conf_pct\<close> when that is
  strictly positive and \<open>max 0 ((1 - mad / (2 * 120)) * 100)\<close> otherwise; the record
  overwrites the pending slot exactly when that confidence reaches the minimum
  threshold, and the rest of the state is left as it was.
\<close>

theorem confidence_threshold:
  "confidence rec =
     (if rec_conf_pct rec > 0 then rec_conf_pct rec
      else max 0 ((1 - rec_mad_us rec / (2 * 120)) * 100))
   \<and> consume_record t rec st =
       Inr (if t \<le> confidence rec then st\<lparr>rec_current := Some rec\<rparr> else st)"
  using confidence_max [of rec] consume_record_eq [of t rec st] by blast

theorem confidence_threshold_witness:
  "confidence reading_a = 75
   \<and> consume_record 60 reading_a capture_init
       = Inr \<lparr>rows = [], rec_current = Some reading_a, saved = 0\<rparr>
   \<and> consume_record 80 reading_a capture_init = Inr capture_init
   \<and> confidence reading_b = 90"
  using confidence_threshold [of reading_a 60 capture_init]
    confidence_threshold [of reading_a 80 capture_init]
    confidence_threshold [of reading_b 0 capture_init]
  by (simp add: capture_init_def)

lemma handle_key_pending:
  "rec_current st = Some rc \<Longrightarrow> key = ''f'' \<or> key = ''s'' \<Longrightarrow>
   handle_key key st =
     (st\<lparr>rows := rows st @ [\<lparr>echo_us = rec_echo_us rc, label = (if key = ''f'' then 1 else 0),
                              fresh_anchor = rec_fresh_anchor rc,
                              spoil_anchor = rec_spoil_anchor rc\<rparr>],
         saved := saved st + 1, rec_current := None\<rparr>, False)"
  by (auto simp add: handle_key_def Let_def)

lemma handle_key_empty:
  "rec_current st = None \<Longrightarrow> key = ''f'' \<or> key = ''s'' \<Longrightarrow> handle_key key st = (st, False)"
  by (auto simp add: handle_key_def)

lemma handle_key_slot:
  "rec_current (fst (handle_key key st)) = None \<or>
   rec_current (fst (handle_key key st)) = rec_current st"
  by (simp add: handle_key_def Let_def split: option.splits)

lemma handle_key_rows:
  "length (rows (fst (handle_key key st))) \<le> Suc (length (rows st))"
  by (simp add: handle_key_def Let_def split: option.splits)

lemma loop_body_eq:
  "loop_body t ev st =
     Inr (handle_key (snd ev)
            (case fst ev of None \<Rightarrow> st
             | Some rec \<Rightarrow> if t \<le> confidence rec then st\<lparr>rec_current := Some rec\<rparr> else st))"
  by (cases "fst ev") (simp_all add: loop_body_def consume_record_eq)

lemma loop_body_Inr: "\<exists>st1 stop. loop_body t ev st = Inr (st1, stop)"
  by (simp add: loop_body_eq)

lemma loop_body_slot:
  "loop_body t ev st = Inr (st1, stop) \<Longrightarrow>
   rec_current st1 = None \<or> rec_current st1 = rec_current st \<or> rec_current st1 = fst ev"
  using handle_key_slot [of "snd ev" st]
    handle_key_slot [of "snd ev" "st\<lparr>rec_current := fst ev\<rparr>"]
  by (cases "fst ev") (auto simp add: loop_body_def consume_record_eq split: if_splits)

lemma capture_loop_slot:
  "capture_loop t evs st = Inr st' \<Longrightarrow>
   rec_current st' = None \<or> rec_current st' = rec_current st
   \<or> rec_current st' \<in> fst ` set evs"
proof (induction evs arbitrary: st)
  case Nil
  then show ?case by simp
next
  case (Cons ev evs)
  obtain st1 stop where b: "loop_body t ev st = Inr (st1, stop)"
    using loop_body_Inr by blast
  from loop_body_slot [OF b]
  have s1: "rec_current st1 = None \<or> rec_current st1 = rec_current st \<or> rec_current st1 = fst ev" .
  show ?case
  proof (cases stop)
    case True
    with Cons.prems b have "st' = st1" by simp
    with s1 show ?thesis by auto
  next
    case False
    with Cons.prems b have "capture_loop t evs st1 = Inr st'" by simp
    from Cons.IH [OF this] s1 show ?thesis by auto
  qed
qed

lemma capture_loop_returns: "\<exists>st'. capture_loop t evs st = Inr st'"
proof (induction evs arbitrary: st)
  case Nil
  then show ?case by simp
next
  case (Cons ev evs)
  obtain st1 stop where b: "loop_body t ev st = Inr (st1, stop)"
    using loop_body_Inr by blast
  with Cons.IH [of st1] show ?case by (cases stop) auto
qed

text \<open>
  Claim C3. With a pending candidate, the key \<^verbatim>\<open>f\<close> (label 1) or \<^verbatim>\<open>s\<close> (label 0)
  appends exactly one sample carrying the candidate's echo and anchors and clears the
  slot. With no pending candidate the same keys change nothing. A record that meets the
  threshold overwrites the slot, whatever it held. After any run of the loop the slot is
  empty, or holds what it held at the start, or holds one of the records that arrived.
\<close>

theorem label_key_step:
  "(rec_current st = Some rc \<longrightarrow>
      handle_key ''f'' st =
        (st\<lparr>rows := rows st @ [\<lparr>echo_us = rec_echo_us rc, label = 1,
                                 fresh_anchor = rec_fresh_anchor rc,
                                 spoil_anchor = rec_spoil_anchor rc\<rparr>],
            saved := saved st + 1, rec_current := None\<rparr>, False)
      \<and> handle_key ''s'' st =
        (st\<lparr>rows := rows st @ [\<lparr>echo_us = rec_echo_us rc, label = 0,
                                 fresh_anchor = rec_fresh_anchor rc,
                                 spoil_anchor = rec_spoil_anchor rc\<rparr>],
            saved := saved st + 1, rec_current := None\<rparr>, False))
   \<and> (rec_current st = None \<longrightarrow>
        handle_key ''f'' st = (st, False) \<and> handle_key ''s'' st = (st, False))
   \<and> (t \<le> confidence rec \<longrightarrow>
        consume_record t rec st = Inr (st\<lparr>rec_current := Some rec\<rparr>))
   \<and> (capture_loop t evs st = Inr st' \<longrightarrow>
        rec_current st' = None \<or> rec_current st' = rec_current st
        \<or> rec_current st' \<in> fst ` set evs)"
proof -
  have a: "rec_current st = Some rc \<longrightarrow>
      handle_key ''f'' st =
        (st\<lparr>rows := rows st @ [\<lparr>echo_us = rec_echo_us rc, label = 1,
                                 fresh_anchor = rec_fresh_anchor rc,
                                 spoil_anchor = rec_spoil_anchor rc\<rparr>],
            saved := saved st + 1, rec_current := None\<rparr>, False)
      \<and> handle_key ''s'' st =
        (st\<lparr>rows := rows st @ [\<lparr>echo_us = rec_echo_us rc, label = 0,
                                 fresh_anchor = rec_fresh_anchor rc,
                                 spoil_anchor = rec_spoil_anchor rc\<rparr>],
            saved := saved st + 1, rec_current := None\<rparr>, False)"
    using handle_key_pending [of st rc "''f''"] handle_key_pending [of st rc "''s''"]
    by simp
  have b: "rec_current st = None \<longrightarrow>
        handle_key ''f'' st = (st, False) \<and> handle_key ''s'' st = (st, False)"
    using handle_key_empty [of st "''f''"] handle_key_empty [of st "''s''"] by simp
  have c: "t \<le> confidence rec \<longrightarrow>
        consume_record t rec st = Inr (st\<lparr>rec_current := Some rec\<rparr>)"
    by (simp add: consume_record_eq)
  have d: "capture_loop t evs st = Inr st' \<longrightarrow>
        rec_current st' = None \<or> rec_current st' = rec_current st
        \<or> rec_current st' \<in> fst ` set evs"
    using capture_loop_slot [of t evs st st'] by blast
  from a b c d show ?thesis by blast
qed

text \<open>
  The witness labels a pending record, presses a key on the empty slot, overwrites a
  pending record by a newer one, and runs the scenario of the specification: five
  records and the keys \<^verbatim>\<open>f\<close>, \<^verbatim>\<open>s\<close>, \<^verbatim>\<open>f\<close>, \<^verbatim>\<open>q\<close> at minimum confidence 0 give three
  samples in arrival order.
\<close>

theorem label_key_step_witness:
  "handle_key ''f'' \<lparr>rows = [], rec_current = Some reading_a, saved = 0\<rparr>
     = (\<lparr>rows = [\<lparr>echo_us = 2000, label = 1, fresh_anchor = 1400, spoil_anchor = 2600\<rparr>],
         rec_current = None, saved = 1\<rparr>, False)
   \<and> handle_key ''s'' \<lparr>rows = [], rec_current = Some reading_a, saved = 0\<rparr>
     = (\<lparr>rows = [\<lparr>echo_us = 2000, label = 0, fresh_anchor = 1400, spoil_anchor = 2600\<rparr>],
         rec_current = None, saved = 1\<rparr>, False)
   \<and> handle_key ''f'' capture_init = (capture_init, False)
   \<and> consume_record 0 reading_b \<lparr>rows = [], rec_current = Some reading_a, saved = 0\<rparr>
     = Inr \<lparr>rows = [], rec_current = Some reading_b, saved = 0\<rparr>
   \<and> capture_loop 0
        [(Some reading_a, ''f''), (Some reading_b, []), (Some reading_a, ''s''), (Some reading_b, ''f''),
         (Some reading_a, ''q'')] capture_init
     = Inr \<lparr>rows = [\<lparr>echo_us = 2000, label = 1, fresh_anchor = 1400, spoil_anchor = 2600\<rparr>,
                   \<lparr>echo_us = 2000, label = 0, fresh_anchor = 1400, spoil_anchor = 2600\<rparr>,
                   \<lparr>echo_us = 1500, label = 1, fresh_anchor = 1400, spoil_anchor = 2600\<rparr>],
            rec_current = Some reading_a, saved = 3\<rparr>"
  using label_key_step [of "\<lparr>rows = [], rec_current = Some reading_a, saved = 0\<rparr>" reading_a 0 reading_b
      "[]" "\<lparr>rows = [], rec_current = Some reading_a, saved = 0\<rparr>"]
    label_key_step [of capture_init reading_a 0 reading_b "[]" capture_init]
  by (simp add: capture_init_def loop_body_eq handle_key_def confidence_def)

subsection \<open>Teardown\<close>

lemma teardown_write_failure_swallowed:
  "capture_mode_finish (Inr st) (Raises e) Succeeds True = Inr (Some (rows st))"
  by (simp add: capture_mode_finish_def session_teardown_def)

lemma teardown_all_succeed:
  "capture_mode_finish (Inr st) Succeeds Succeeds True = Inr (Some (rows st))"
  by (simp add: capture_mode_finish_def session_teardown_def)

lemma teardown_close_failure_raises:
  "capture_mode_finish body write_off (Raises e) out = Inl e"
  by (simp add: capture_mode_finish_def session_teardown_def)

text \<open>
  Claim C9. Teardown is to swallow a failure of the \<^verbatim>\<open>TRAIN:OFF\<close> write and of the close
  alike, so that the labelled samples still reach the store. A failing write is
  swallowed (\<open>teardown_write_failure_swallowed\<close>). A failing close is not: with one
  sample labelled, the write succeeding and \<^verbatim>\<open>ser.close()\<close> raising, the exception
  leaves \<^verbatim>\<open>capture_mode\<close> and nothing is handed to \<^verbatim>\<open>save_csv\<close>.
\<close>

theorem teardown_close_failure:
  "capture_mode_finish
     (Inr \<lparr>rows = [\<lparr>echo_us = 2000, label = 1, fresh_anchor = 1400, spoil_anchor = 2600\<rparr>],
           rec_current = None, saved = 1\<rparr>)
     Succeeds (Raises SerialException) True
   = Inl SerialException"
  by (simp add: capture_mode_finish_def session_teardown_def)

subsection \<open>Model fitter\<close>

lemma filter_length_mono:
  "(\<And>x. P x \<Longrightarrow> Q x) \<Longrightarrow> length (filter P xs) \<le> length (filter Q xs)"
  by (induction xs) auto

lemma count_le_sorted:
  assumes "sorted s" and "k < length s"
  shows "Suc k \<le> length (filter (\<lambda>x. x \<le> s ! k) (s :: real list))"
proof -
  have all: "\<forall>x \<in> set (take (Suc k) s). x \<le> s ! k"
  proof
    fix x assume "x \<in> set (take (Suc k) s)"
    then obtain i where i: "i < Suc k" "i < length s" "x = s ! i"
      by (auto simp add: in_set_conv_nth)
    with assms show "x \<le> s ! k" by (simp add: sorted_nth_mono)
  qed
  have "filter (\<lambda>x. x \<le> s ! k) s =
        filter (\<lambda>x. x \<le> s ! k) (take (Suc k) s) @ filter (\<lambda>x. x \<le> s ! k) (drop (Suc k) s)"
    by (metis append_take_drop_id filter_append)
  moreover have "filter (\<lambda>x. x \<le> s ! k) (take (Suc k) s) = take (Suc k) s"
    using all by (simp add: filter_id_conv)
  ultimately have "length (filter (\<lambda>x. x \<le> s ! k) s) \<ge> length (take (Suc k) s)"
    by simp
  with assms show ?thesis by simp
qed

lemma count_ge_sorted:
  assumes "sorted s" and "k < length s"
  shows "length s - k \<le> length (filter (\<lambda>x. s ! k \<le> x) (s :: real list))"
proof -
  have all: "\<forall>x \<in> set (drop k s). s ! k \<le> x"
  proof
    fix x assume "x \<in> set (drop k s)"
    then obtain i where i: "i < length s - k" "x = s ! (k + i)"
      by (auto simp add: in_set_conv_nth)
    with assms show "s ! k \<le> x" by (simp add: sorted_nth_mono)
  qed
  have "filter (\<lambda>x. s ! k \<le> x) s =
        filter (\<lambda>x. s ! k \<le> x) (take k s) @ filter (\<lambda>x. s ! k \<le> x) (drop k s)"
    by (metis append_take_drop_id filter_append)
  moreover have "filter (\<lambda>x. s ! k \<le> x) (drop k s) = drop k s"
    using all by (simp add: filter_id_conv)
  ultimately have "length (filter (\<lambda>x. s ! k \<le> x) s) \<ge> length (drop k s)"
    by simp
  then show ?thesis by simp
qed

lemma filter_length_sort: "length (filter P (sort xs)) = length (filter P (xs :: real list))"
  by (simp add: filter_sort)

lemma np_median_Some: "xs \<noteq> [] \<Longrightarrow> \<exists>m. np_median xs = Some m"
  by (simp add: np_median_def Let_def)

lemma np_median_is_median:
  assumes "np_median xs = Some m"
  shows "is_median m xs"
proof -
  from assms have ne: "xs \<noteq> []" by (auto simp add: np_median_def split: if_splits)
  define s where "s = sort xs"
  define n where "n = length xs"
  have srt: "sorted s" and len: "length s = n" by (simp_all add: s_def n_def)
  have npos: "0 < n" using ne by (simp add: n_def)
  show ?thesis
  proof (cases "odd n")
    case True
    then have m: "m = s ! (n div 2)"
      using assms ne by (simp add: np_median_def Let_def s_def n_def)
    have k: "n div 2 < length s" using npos len by simp
    have "Suc (n div 2) \<le> length (filter (\<lambda>x. x \<le> m) s)"
      using count_le_sorted [OF srt k] m by simp
    moreover have "n - n div 2 \<le> length (filter (\<lambda>x. m \<le> x) s)"
      using count_ge_sorted [OF srt k] m len by simp
    ultimately have "n \<le> 2 * length (filter (\<lambda>x. x \<le> m) s)"
      and "n \<le> 2 * length (filter (\<lambda>x. m \<le> x) s)"
      by linarith+
    then show ?thesis
      by (simp add: is_median_def s_def n_def filter_length_sort)
  next
    case False
    then have ev: "even n" by simp
    then have m: "m = (s ! (n div 2 - 1) + s ! (n div 2)) / 2"
      using assms ne by (simp add: np_median_def Let_def s_def n_def)
    have n2: "2 \<le> n" using ev npos by (auto elim!: evenE)
    have k1: "n div 2 - 1 < length s" and k2: "n div 2 < length s"
      using n2 len by simp_all
    have ord: "s ! (n div 2 - 1) \<le> s ! (n div 2)"
      using srt k2 by (simp add: sorted_nth_mono)
    have lo: "s ! (n div 2 - 1) \<le> m" and hi: "m \<le> s ! (n div 2)"
      using ord m by simp_all
    have "Suc (n div 2 - 1) \<le> length (filter (\<lambda>x. x \<le> s ! (n div 2 - 1)) s)"
      using count_le_sorted [OF srt k1] .
    also have "\<dots> \<le> length (filter (\<lambda>x. x \<le> m) s)"
      using lo by (intro filter_length_mono) simp
    finally have a: "n div 2 \<le> length (filter (\<lambda>x. x \<le> m) s)"
      using n2 by simp
    have "n - n div 2 \<le> length (filter (\<lambda>x. s ! (n div 2) \<le> x) s)"
      using count_ge_sorted [OF srt k2] len by simp
    also have "\<dots> \<le> length (filter (\<lambda>x. m \<le> x) s)"
      using hi by (intro filter_length_mono) simp
    finally have b: "n - n div 2 \<le> length (filter (\<lambda>x. m \<le> x) s)" .
    from a b ev have "n \<le> 2 * length (filter (\<lambda>x. x \<le> m) s)"
      and "n \<le> 2 * length (filter (\<lambda>x. m \<le> x) s)"
      by (auto elim!: evenE)
    then show ?thesis
      by (simp add: is_median_def s_def n_def filter_length_sort)
  qed
qed

lemma scale_all_eq: "scale_all fa sa es = Inr (map (\<lambda>e. normalize_spec e fa sa) es)"
  by (induction es) (simp_all add: scale_echo_normalize)

lemma train_from_csv_eq:
  assumes "np_median (map fresh_anchor rs) = Some fa"
    and "np_median (map spoil_anchor rs) = Some sa"
  shows "train_from_csv sk rs =
     Inr (if length (remdups (map label rs)) < 2 then
            ([ComputeMedians fa sa,
              Normalize (map (\<lambda>r. normalize_spec (echo_us r) fa sa) rs)], NeedBothClasses)
          else
            ([ComputeMedians fa sa,
              Normalize (map (\<lambda>r. normalize_spec (echo_us r) fa sa) rs),
              Solve (map (\<lambda>r. normalize_spec (echo_us r) fa sa) rs) (map label rs)],
             Trained
               (fst (fit_logistic_1d sk (map (\<lambda>r. normalize_spec (echo_us r) fa sa) rs)
                      (map label rs)))
               (snd (fit_logistic_1d sk (map (\<lambda>r. normalize_spec (echo_us r) fa sa) rs)
                      (map label rs)))
               (emit_W_line
                 (fst (fit_logistic_1d sk (map (\<lambda>r. normalize_spec (echo_us r) fa sa) rs)
                        (map label rs)))
                 (snd (fit_logistic_1d sk (map (\<lambda>r. normalize_spec (echo_us r) fa sa) rs)
                        (map label rs))))))"
proof -
  from assms(1) have ne: "rs \<noteq> []" by (auto simp add: np_median_def split: if_splits)
  show ?thesis
    using assms ne
    by (simp add: train_from_csv_def scale_all_eq Let_def comp_def split: prod.splits)
qed

text \<open>
  Claim C6. For a sample list that is not empty, the anchors used are the medians of
  the samples' fresh anchors and of their spoil anchors (values computed by
  \<open>np_median\<close>, each a median of its list), every sample's feature is
  \<open>normalize_spec\<close> of its echo with these two medians, the normalization raises
  nothing, and when both classes are present these features and the labels are what
  the solver is given and what the fitted model comes from.
\<close>

theorem train_features:
  "rs \<noteq> [] \<Longrightarrow>
   \<exists>fa sa.
     np_median (map fresh_anchor rs) = Some fa
     \<and> np_median (map spoil_anchor rs) = Some sa
     \<and> is_median fa (map fresh_anchor rs)
     \<and> is_median sa (map spoil_anchor rs)
     \<and> scale_all fa sa (map echo_us rs)
         = Inr (map (\<lambda>r. normalize_spec (echo_us r) fa sa) rs)
     \<and> train_from_csv sk rs =
         Inr (if length (remdups (map label rs)) < 2 then
                ([ComputeMedians fa sa,
                  Normalize (map (\<lambda>r. normalize_spec (echo_us r) fa sa) rs)],
                 NeedBothClasses)
              else
                ([ComputeMedians fa sa,
                  Normalize (map (\<lambda>r. normalize_spec (echo_us r) fa sa) rs),
                  Solve (map (\<lambda>r. normalize_spec (echo_us r) fa sa) rs) (map label rs)],
                 Trained
                   (fst (fit_logistic_1d sk
                          (map (\<lambda>r. normalize_spec (echo_us r) fa sa) rs) (map label rs)))
                   (snd (fit_logistic_1d sk
                          (map (\<lambda>r. normalize_spec (echo_us r) fa sa) rs) (map label rs)))
                   (emit_W_line
                     (fst (fit_logistic_1d sk
                            (map (\<lambda>r. normalize_spec (echo_us r) fa sa) rs) (map label rs)))
                     (snd (fit_logistic_1d sk
                            (map (\<lambda>r. normalize_spec (echo_us r) fa sa) rs)
                            (map label rs))))))"
proof -
  assume ne: "rs \<noteq> []"
  obtain fa where fa: "np_median (map fresh_anchor rs) = Some fa"
    using np_median_Some [of "map fresh_anchor rs"] ne by auto
  obtain sa where sa: "np_median (map spoil_anchor rs) = Some sa"
    using np_median_Some [of "map spoil_anchor rs"] ne by auto
  show ?thesis
    using fa sa np_median_is_median [OF fa] np_median_is_median [OF sa]
      train_from_csv_eq [OF fa sa, of sk]
      scale_all_eq [of fa sa "map echo_us rs"]
    by (intro exI [of _ fa] exI [of _ sa]) (simp add: comp_def)
qed

lemma train_example_medians:
  "np_median [1400, 1500, 1300] = Some 1400 \<and> np_median [2600, 2400, 2800] = Some 2600"
  by (simp add: np_median_def)

theorem train_features_witness:
  "np_median (map fresh_anchor
      [\<lparr>echo_us = 2000, label = 1, fresh_anchor = 1400, spoil_anchor = 2600\<rparr>,
       \<lparr>echo_us = 1700, label = 0, fresh_anchor = 1500, spoil_anchor = 2400\<rparr>,
       \<lparr>echo_us = 3000, label = 1, fresh_anchor = 1300, spoil_anchor = 2800\<rparr>]) = Some 1400
   \<and> np_median (map spoil_anchor
      [\<lparr>echo_us = 2000, label = 1, fresh_anchor = 1400, spoil_anchor = 2600\<rparr>,
       \<lparr>echo_us = 1700, label = 0, fresh_anchor = 1500, spoil_anchor = 2400\<rparr>,
       \<lparr>echo_us = 3000, label = 1, fresh_anchor = 1300, spoil_anchor = 2800\<rparr>]) = Some 2600
   \<and> fst (projr (train_from_csv (Some (\<lambda>X y. (- 4, 2)))
      [\<lparr>echo_us = 2000, label = 1, fresh_anchor = 1400, spoil_anchor = 2600\<rparr>,
       \<lparr>echo_us = 1700, label = 0, fresh_anchor = 1500, spoil_anchor = 2400\<rparr>,
       \<lparr>echo_us = 3000, label = 1, fresh_anchor = 1300, spoil_anchor = 2800\<rparr>]))
     = [ComputeMedians 1400 2600, Normalize [1 / 2, 3 / 4, 0],
        Solve [1 / 2, 3 / 4, 0] [1, 0, 1]]"
proof -
  have m: "np_median [1400, 1500, 1300] = Some 1400 \<and> np_median [2600, 2400, 2800] = Some 2600"
    by (rule train_example_medians)
  have n: "normalize_spec 2000 1400 2600 = 1 / 2 \<and> normalize_spec 1700 1400 2600 = 3 / 4
           \<and> normalize_spec 3000 1400 2600 = 0"
    by (simp add: normalize_spec_def spec_span_def spec_spoil_def clamp01_def)
  from train_features [of
      "[\<lparr>echo_us = 2000, label = 1, fresh_anchor = 1400, spoil_anchor = 2600\<rparr>,
        \<lparr>echo_us = 1700, label = 0, fresh_anchor = 1500, spoil_anchor = 2400\<rparr>,
        \<lparr>echo_us = 3000, label = 1, fresh_anchor = 1300, spoil_anchor = 2800\<rparr>]"
      "Some (\<lambda>X y. (- 4, 2))"] m n
  show ?thesis by auto
qed





subsection \<open>Line protocol parser\<close>

lemma split_on_nonempty: "split_on d s \<noteq> []"
  by (induction s) (auto split: list.splits)

lemma split_on_length: "length (split_on d s) = Suc (length (filter (\<lambda>c. c = d) s))"
proof (induction s)
  case Nil
  then show ?case by simp
next
  case (Cons c cs)
  obtain p ps where "split_on d cs = p # ps"
    using split_on_nonempty [of d cs] by (cases "split_on d cs") auto
  with Cons show ?case by auto
qed

lemma csv_parts_length:
  "length (csv_parts line) = Suc (length (filter (\<lambda>c. c = CHR '','') line))"
  by (simp add: csv_parts_def split_on_length)

lemma py_int_of_float_Some: "(\<exists>n. py_int_of_float t = Some n) = (\<exists>v. t = Finite v)"
  by (cases t) (simp_all add: py_int_of_float_def)

lemma py_int_of_float_Finite:
  "py_int_of_float (Finite v) = Some (if v \<ge> 0 then \<lfloor>v\<rfloor> else \<lceil>v\<rceil>)"
  by (simp add: py_int_of_float_def)

lemma seven_parts:
  assumes "7 \<le> length (xs :: 'a list)"
  shows "\<exists>a b c d e f g r. xs = a # b # c # d # e # f # g # r"
proof -
  obtain a x1 where 1: "xs = a # x1" using assms by (cases xs) auto
  obtain b x2 where 2: "x1 = b # x2" using assms 1 by (cases x1) auto
  obtain c x3 where 3: "x2 = c # x3" using assms 1 2 by (cases x2) auto
  obtain d x4 where 4: "x3 = d # x4" using assms 1 2 3 by (cases x3) auto
  obtain e x5 where 5: "x4 = e # x5" using assms 1 2 3 4 by (cases x4) auto
  obtain f x6 where 6: "x5 = f # x6" using assms 1 2 3 4 5 by (cases x5) auto
  obtain g x7 where 7: "x6 = g # x7" using assms 1 2 3 4 5 6 by (cases x6) auto
  from 1 2 3 4 5 6 7 show ?thesis by blast
qed

lemma parse_csv_short: "length (csv_parts line) < 7 \<Longrightarrow> parse_device_csv_line line = None"
  by (simp add: parse_device_csv_line_def Let_def)

lemma parse_csv_iff:
  "(\<exists>r. parse_device_csv_line line = Some r) \<longleftrightarrow>
     7 \<le> length (csv_parts line)
     \<and> list_all (\<lambda>p. \<exists>x. py_float p = Some x) (take 7 (csv_parts line))
     \<and> (\<exists>v. py_float (csv_parts line ! 0) = Some (Finite v))"
proof (cases "7 \<le> length (csv_parts line)")
  case False
  then show ?thesis by (simp add: parse_csv_short)
next
  case True
  then obtain a b c d e f g r where p: "csv_parts line = a # b # c # d # e # f # g # r"
    using seven_parts by blast
  show ?thesis
  proof (cases "py_float a")
    case None
    then show ?thesis using p by (simp add: parse_device_csv_line_def Let_def)
  next
    case (Some t)
    then show ?thesis
      using p py_int_of_float_Some [of t]
      by (cases t)
        (auto simp add: parse_device_csv_line_def Let_def py_int_of_float_def split: option.splits)
  qed
qed

lemma parse_csv_fields:
  assumes "parse_device_csv_line line = Some r"
  shows "(\<exists>v. py_float (csv_parts line ! 0) = Some (Finite v)
            \<and> rec_ts_ms r = (if v \<ge> 0 then \<lfloor>v\<rfloor> else \<lceil>v\<rceil>))
         \<and> py_float (csv_parts line ! 1) = Some (rec_echo_us r)
         \<and> py_float (csv_parts line ! 2) = Some (rec_mad_us r)
         \<and> py_float (csv_parts line ! 3) = Some (rec_fresh_pct r)
         \<and> py_float (csv_parts line ! 4) = Some (rec_conf_pct r)
         \<and> py_float (csv_parts line ! 5) = Some (rec_fresh_anchor r)
         \<and> py_float (csv_parts line ! 6) = Some (rec_spoil_anchor r)"
proof -
  have len: "7 \<le> length (csv_parts line)"
    using assms by (auto simp add: parse_device_csv_line_def Let_def split: if_splits)
  then obtain a b c d e f g rest where p: "csv_parts line = a # b # c # d # e # f # g # rest"
    using seven_parts by blast
  obtain t where t: "py_float a = Some t"
    using assms p by (auto simp add: parse_device_csv_line_def Let_def split: option.splits)
  show ?thesis
    using assms p t
    by (cases t)
      (auto simp add: parse_device_csv_line_def Let_def py_int_of_float_def split: option.splits)
qed
lemmas parse_eval = parse_device_csv_line_def csv_parts_def strip_def strip_with_def is_space_def
  is_num_space_def py_float_def py_int_of_float_def parse_decimal_def split_sign_def
  drop_underscores_def overflow_to_inf_def nat_of_digits_def digit_val_def is_digit_def
  to_lower_def Let_def

text \<open>
  Claim C2, as the code has it. The parts of a line are one more than its commas. The
  parser returns a record exactly when there are at least seven parts, each of the
  first seven (stripped) is accepted by \<^verbatim>\<open>float()\<close>, and the first denotes a finite
  value; the record holds that value truncated towards zero as time stamp and the six
  other values as read; parts beyond the seventh are ignored. With fewer than seven
  parts, or with one of the first seven rejected by \<^verbatim>\<open>float()\<close>, the result is
  \<open>None\<close>. The function is total: no input raises.
\<close>

theorem parse_device_csv_line_spec:
  "length (csv_parts line) = Suc (length (filter (\<lambda>c. c = CHR '','') line))
   \<and> ((\<exists>r. parse_device_csv_line line = Some r) \<longleftrightarrow>
        7 \<le> length (csv_parts line)
        \<and> list_all (\<lambda>p. \<exists>x. py_float p = Some x) (take 7 (csv_parts line))
        \<and> (\<exists>v. py_float (csv_parts line ! 0) = Some (Finite v)))
   \<and> (length (csv_parts line) < 7 \<longrightarrow> parse_device_csv_line line = None)
   \<and> (\<not> list_all (\<lambda>p. \<exists>x. py_float p = Some x) (take 7 (csv_parts line)) \<longrightarrow>
        parse_device_csv_line line = None)
   \<and> (\<forall>r. parse_device_csv_line line = Some r \<longrightarrow>
        (\<exists>v. py_float (csv_parts line ! 0) = Some (Finite v)
            \<and> rec_ts_ms r = (if v \<ge> 0 then \<lfloor>v\<rfloor> else \<lceil>v\<rceil>))
        \<and> py_float (csv_parts line ! 1) = Some (rec_echo_us r)
        \<and> py_float (csv_parts line ! 2) = Some (rec_mad_us r)
        \<and> py_float (csv_parts line ! 3) = Some (rec_fresh_pct r)
        \<and> py_float (csv_parts line ! 4) = Some (rec_conf_pct r)
        \<and> py_float (csv_parts line ! 5) = Some (rec_fresh_anchor r)
        \<and> py_float (csv_parts line ! 6) = Some (rec_spoil_anchor r))"
proof -
  have a: "length (csv_parts line) = Suc (length (filter (\<lambda>c. c = CHR '','') line))"
    by (rule csv_parts_length)
  have b: "(\<exists>r. parse_device_csv_line line = Some r) \<longleftrightarrow>
        7 \<le> length (csv_parts line)
        \<and> list_all (\<lambda>p. \<exists>x. py_float p = Some x) (take 7 (csv_parts line))
        \<and> (\<exists>v. py_float (csv_parts line ! 0) = Some (Finite v))"
    by (rule parse_csv_iff)
  have c: "length (csv_parts line) < 7 \<longrightarrow> parse_device_csv_line line = None"
    by (simp add: parse_csv_short)
  have d: "\<not> list_all (\<lambda>p. \<exists>x. py_float p = Some x) (take 7 (csv_parts line)) \<longrightarrow>
        parse_device_csv_line line = None"
    using b by (cases "parse_device_csv_line line") auto
  have e: "\<forall>r. parse_device_csv_line line = Some r \<longrightarrow>
        (\<exists>v. py_float (csv_parts line ! 0) = Some (Finite v)
            \<and> rec_ts_ms r = (if v \<ge> 0 then \<lfloor>v\<rfloor> else \<lceil>v\<rceil>))
        \<and> py_float (csv_parts line ! 1) = Some (rec_echo_us r)
        \<and> py_float (csv_parts line ! 2) = Some (rec_mad_us r)
        \<and> py_float (csv_parts line ! 3) = Some (rec_fresh_pct r)
        \<and> py_float (csv_parts line ! 4) = Some (rec_conf_pct r)
        \<and> py_float (csv_parts line ! 5) = Some (rec_fresh_anchor r)
        \<and> py_float (csv_parts line ! 6) = Some (rec_spoil_anchor r)"
    using parse_csv_fields [of line] by blast
  from a b c d e show ?thesis by blast
qed

lemma parse_example_line:
  "parse_device_csv_line ''10, 1840.5 ,12,0,nan,1400,2600'' =
     Some \<lparr>rec_ts_ms = 10, rec_echo_us = Finite (3681 / 2), rec_mad_us = Finite 12,
           rec_fresh_pct = Finite 0, rec_conf_pct = NaN, rec_fresh_anchor = Finite 1400,
           rec_spoil_anchor = Finite 2600\<rparr>"
  by (simp add: parse_eval)

lemma parse_example_rejects:
  "parse_device_csv_line ''1,2,3,4,5,6'' = None
   \<and> parse_device_csv_line ''1,2,x,4,5,6,7'' = None
   \<and> parse_device_csv_line ''inf,2,3,4,5,6,7'' = None"
  by (simp add: parse_eval)

theorem parse_device_csv_line_spec_witness:
  "parse_device_csv_line ''10, 1840.5 ,12,0,nan,1400,2600'' =
     Some \<lparr>rec_ts_ms = 10, rec_echo_us = Finite (3681 / 2), rec_mad_us = Finite 12,
           rec_fresh_pct = Finite 0, rec_conf_pct = NaN, rec_fresh_anchor = Finite 1400,
           rec_spoil_anchor = Finite 2600\<rparr>
   \<and> length (csv_parts ''10, 1840.5 ,12,0,nan,1400,2600'') = 7
   \<and> py_float (csv_parts ''10, 1840.5 ,12,0,nan,1400,2600'' ! 1) = Some (Finite (3681 / 2))
   \<and> length (csv_parts ''1,2,3,4,5,6'') = 6
   \<and> parse_device_csv_line ''1,2,3,4,5,6'' = None"
proof -
  note ex = parse_example_line
  have six: "length (csv_parts ''1,2,3,4,5,6'') = 6" by (simp add: csv_parts_def)
  from parse_device_csv_line_spec [of "''10, 1840.5 ,12,0,nan,1400,2600''"] ex
  have one: "py_float (csv_parts ''10, 1840.5 ,12,0,nan,1400,2600'' ! 1) = Some (Finite (3681 / 2))
      \<and> length (csv_parts ''10, 1840.5 ,12,0,nan,1400,2600'') = 7"
    by simp
  from parse_device_csv_line_spec [of "''1,2,3,4,5,6''"] six
  have "parse_device_csv_line ''1,2,3,4,5,6'' = None" by simp
  with ex six one show ?thesis by simp
qed

text \<open>
  Against claim C2 as stated: a line of eight fields, not exactly seven, gives a
  record; the eighth field is ignored.
\<close>

theorem parse_device_csv_line_eight_fields:
  "length (csv_parts ''1,2,3,4,5,6,7,8'') = 8
   \<and> parse_device_csv_line ''1,2,3,4,5,6,7,8'' =
       Some \<lparr>rec_ts_ms = 1, rec_echo_us = Finite 2, rec_mad_us = Finite 3,
             rec_fresh_pct = Finite 4, rec_conf_pct = Finite 5, rec_fresh_anchor = Finite 6,
             rec_spoil_anchor = Finite 7\<rparr>"
  by (simp add: parse_eval)

subsection \<open>Numbers as text\<close>

lemma digits_of_small: "n < 10 \<Longrightarrow> digits_of n = [digit_char n]"
  by (simp add: digits_of.simps)

lemma digits_of_big:
  "\<not> n < 10 \<Longrightarrow> digits_of n = digits_of (n div 10) @ [digit_char (n mod 10)]"
  by (subst digits_of.simps) simp

lemma replicate_num: "replicate (numeral k) x = x # replicate (pred_numeral k) x"
  by (simp add: numeral_eq_Suc)

lemmas format_eval = format_fixed_def round_half_even_def digits_of_small digits_of_big
  digit_char_def Let_def replicate_num

lemma digit_char_cases:
  assumes "(n::nat) < 10"
  shows "n \<in> {0, 1, 2, 3, 4, 5, 6, 7, 8, 9}"
  using assms by auto

lemma is_digit_digit_char: "n < 10 \<Longrightarrow> is_digit (digit_char n)"
  using digit_char_cases [of n] by (auto simp add: is_digit_def digit_char_def)

lemma digit_val_digit_char: "n < 10 \<Longrightarrow> digit_val (digit_char n) = n"
  using digit_char_cases [of n] by (auto simp add: digit_val_def digit_char_def)

lemma digits_of_all_digits: "list_all is_digit (digits_of n)"
proof (induction n rule: digits_of.induct)
  case (1 n)
  show ?case
  proof (cases "n < 10")
    case True
    then show ?thesis by (simp add: digits_of_small is_digit_digit_char)
  next
    case False
    with 1 show ?thesis by (simp add: digits_of_big is_digit_digit_char)
  qed
qed

lemma digits_of_nonempty: "digits_of n \<noteq> []"
  by (cases "n < 10") (simp_all add: digits_of_small digits_of_big)

lemma nat_of_digits_snoc: "nat_of_digits (ds @ [c]) = 10 * nat_of_digits ds + digit_val c"
  by (simp add: nat_of_digits_def)

lemma nat_of_digits_digits_of: "nat_of_digits (digits_of n) = n"
proof (induction n rule: digits_of.induct)
  case (1 n)
  show ?case
  proof (cases "n < 10")
    case True
    then show ?thesis by (simp add: digits_of_small nat_of_digits_def digit_val_digit_char)
  next
    case False
    with 1 show ?thesis
      by (simp add: digits_of_big nat_of_digits_snoc digit_val_digit_char)
  qed
qed

lemma nat_of_digits_append:
  "nat_of_digits (xs @ ys) = nat_of_digits xs * 10 ^ length ys + nat_of_digits ys"
proof (induction ys rule: rev_induct)
  case Nil
  then show ?case by (simp add: nat_of_digits_def)
next
  case (snoc y ys)
  have "nat_of_digits (xs @ ys @ [y]) = 10 * nat_of_digits (xs @ ys) + digit_val y"
    using nat_of_digits_snoc [of "xs @ ys" y] by simp
  with snoc show ?case by (simp add: nat_of_digits_snoc algebra_simps)
qed

lemma nat_of_digits_zeros: "nat_of_digits (replicate k CHR ''0'') = 0"
  by (induction k) (simp_all add: nat_of_digits_def digit_val_def)

lemma digits_of_length: "n < 10 ^ k \<Longrightarrow> 0 < k \<Longrightarrow> length (digits_of n) \<le> k"
proof (induction n arbitrary: k rule: digits_of.induct)
  case (1 n)
  show ?case
  proof (cases "n < 10")
    case True
    with 1 show ?thesis by (simp add: digits_of_small)
  next
    case False
    obtain j where k: "k = Suc j" using 1(3) by (cases k) auto
    have "j \<noteq> 0" using 1(2) False k by (cases j) auto
    moreover have "n div 10 < 10 ^ j" using 1(2) k by (simp add: less_mult_imp_div_less)
    ultimately have "length (digits_of (n div 10)) \<le> j"
      using 1(1) [OF False, of j] by simp
    with False k show ?thesis by (simp add: digits_of_big)
  qed
qed
lemma is_digit_not_special:
  "is_digit c \<Longrightarrow>
     c \<noteq> CHR ''_'' \<and> c \<noteq> CHR ''.'' \<and> c \<noteq> CHR ''-'' \<and> c \<noteq> CHR ''+'' \<and> c \<noteq> CHR '',''
     \<and> \<not> is_num_space c \<and> \<not> is_space c \<and> to_lower c = c"
  by (auto simp add: is_digit_def is_num_space_def is_space_def to_lower_def)

lemma point_not_digit: "\<not> is_digit CHR ''.''"
  by (simp add: is_digit_def)

lemma strip_with_id:
  assumes "s \<noteq> []" and "\<not> sp (hd s)" and "\<not> sp (last s)"
  shows "strip_with sp s = s"
proof -
  have 1: "dropWhile sp s = s" using assms(1,2) by (cases s) auto
  have "rev s \<noteq> []" and "\<not> sp (hd (rev s))" using assms(1,3) by (simp_all add: hd_rev)
  then have 2: "dropWhile sp (rev s) = rev s" by (cases "rev s") auto
  from 1 2 show ?thesis by (simp add: strip_with_def)
qed

lemma underscores_ok_none:
  "CHR ''_'' \<notin> set s \<Longrightarrow> prev \<noteq> Some CHR ''_'' \<Longrightarrow> underscores_ok prev s"
  by (induction s arbitrary: prev) auto

lemma drop_underscores_id: "CHR ''_'' \<notin> set s \<Longrightarrow> drop_underscores s = s"
  by (auto simp add: drop_underscores_def filter_id_conv)

lemma not_inf_nan:
  assumes "u \<noteq> []" and "is_digit (hd u)"
  shows "map to_lower u \<noteq> ''inf'' \<and> map to_lower u \<noteq> ''infinity'' \<and> map to_lower u \<noteq> ''nan''"
proof -
  obtain c r where u: "u = c # r" using assms(1) by (cases u) auto
  then have "to_lower c = c" and "is_digit c" using assms(2) is_digit_not_special by auto
  then have "to_lower c \<noteq> CHR ''i''" and "to_lower c \<noteq> CHR ''n''"
    by (auto simp add: is_digit_def)
  with u show ?thesis by auto
qed

lemma takeWhile_digits_point:
  "list_all is_digit ip \<Longrightarrow> takeWhile is_digit (ip @ CHR ''.'' # fp) = ip"
  by (induction ip) (simp_all add: point_not_digit)

lemma dropWhile_digits_point:
  "list_all is_digit ip \<Longrightarrow> dropWhile is_digit (ip @ CHR ''.'' # fp) = CHR ''.'' # fp"
  by (induction ip) (simp_all add: point_not_digit)

lemma takeWhile_all_digits: "list_all is_digit fp \<Longrightarrow> takeWhile is_digit fp = fp"
  by (induction fp) simp_all

lemma dropWhile_all_digits: "list_all is_digit fp \<Longrightarrow> dropWhile is_digit fp = []"
  by (induction fp) simp_all

lemma parse_decimal_fixed:
  assumes "list_all is_digit ip" and "list_all is_digit fp" and "ip \<noteq> []"
  shows "parse_decimal (ip @ CHR ''.'' # fp)
         = Some (real (nat_of_digits (ip @ fp)) / 10 ^ length fp)"
  using assms
  by (simp add: parse_decimal_def takeWhile_digits_point dropWhile_digits_point
      takeWhile_all_digits dropWhile_all_digits Let_def)

lemma py_float_fixed:
  assumes ip: "list_all is_digit ip" and fp: "list_all is_digit fp"
    and ne: "ip \<noteq> []" and nf: "fp \<noteq> []"
  shows "py_float ((if neg then ''-'' else []) @ ip @ CHR ''.'' # fp)
         = Some (overflow_to_inf
                   (if neg then - (real (nat_of_digits (ip @ fp)) / 10 ^ length fp)
                    else real (nat_of_digits (ip @ fp)) / 10 ^ length fp))"
proof -
  define u where "u = ip @ CHR ''.'' # fp"
  define s where "s = (if neg then ''-'' else []) @ u"
  have dig: "\<And>c. c \<in> set ip \<union> set fp \<Longrightarrow> is_digit c"
    using ip fp by (auto simp add: list_all_iff)
  have hd_u: "is_digit (hd u)" using ne dig by (cases ip) (auto simp add: u_def)
  have u_ne: "u \<noteq> []" by (simp add: u_def)
  have last_s: "is_digit (last s)" using nf dig by (simp add: s_def u_def)
  have hd_s: "\<not> is_num_space (hd s)"
    using hd_u u_ne is_digit_not_special [of "hd u"]
    by (cases neg) (auto simp add: s_def is_num_space_def)
  have strip: "strip_with is_num_space s = s"
    using strip_with_id [of s is_num_space] hd_s last_s is_digit_not_special [of "last s"] u_ne
    by (simp add: s_def)
  have no_us: "CHR ''_'' \<notin> set s"
    using dig is_digit_not_special by (auto simp add: s_def u_def)
  have sign: "split_sign s = (neg, u)"
    using hd_u u_ne is_digit_not_special [of "hd u"]
    by (cases u) (auto simp add: s_def split_sign_def)
  have "py_float s = Some (overflow_to_inf
                   (if neg then - (real (nat_of_digits (ip @ fp)) / 10 ^ length fp)
                    else real (nat_of_digits (ip @ fp)) / 10 ^ length fp))"
    using strip no_us sign not_inf_nan [OF u_ne hd_u] parse_decimal_fixed [OF ip fp ne]
    by (simp add: py_float_def underscores_ok_none drop_underscores_id Let_def u_def)
  then show ?thesis by (simp add: s_def u_def)
qed

lemma round_half_even_nonneg: "0 \<le> x \<Longrightarrow> 0 \<le> round_half_even x"
  by (simp add: round_half_even_def Let_def)

lemma round_half_even_error: "\<bar>real_of_int (round_half_even x) - x\<bar> \<le> 1 / 2"
proof -
  have "real_of_int \<lfloor>x\<rfloor> \<le> x" and "x < real_of_int \<lfloor>x\<rfloor> + 1" by linarith+
  then show ?thesis by (auto simp add: round_half_even_def Let_def)
qed

lemma format_fixed_shape:
  assumes "0 < d"
  shows "\<exists>ip fp. format_fixed d v = (if v < 0 then ''-'' else []) @ ip @ CHR ''.'' # fp
           \<and> list_all is_digit ip \<and> list_all is_digit fp \<and> ip \<noteq> [] \<and> length fp = d
           \<and> real (nat_of_digits (ip @ fp)) = real_of_int (round_half_even (\<bar>v\<bar> * 10 ^ d))"
proof -
  define q where "q = nat (round_half_even (\<bar>v\<bar> * 10 ^ d))"
  define ip where "ip = digits_of (q div 10 ^ d)"
  define f0 where "f0 = digits_of (q mod 10 ^ d)"
  define fp where "fp = replicate (d - length f0) CHR ''0'' @ f0"
  have l0: "length f0 \<le> d"
    using digits_of_length [of "q mod 10 ^ d" d] assms by (simp add: f0_def)
  have len: "length fp = d" using l0 by (simp add: fp_def)
  have d0: "list_all is_digit (replicate (d - length f0) CHR ''0'')"
    by (simp add: list_all_iff is_digit_def)
  have dfp: "list_all is_digit fp" using d0 by (simp add: fp_def f0_def digits_of_all_digits)
  have nfp: "nat_of_digits fp = q mod 10 ^ d"
    by (simp add: fp_def f0_def nat_of_digits_append nat_of_digits_zeros nat_of_digits_digits_of)
  have "nat_of_digits (ip @ fp) = q div 10 ^ d * 10 ^ d + q mod 10 ^ d"
    by (simp add: nat_of_digits_append len nfp ip_def nat_of_digits_digits_of)
  then have val: "nat_of_digits (ip @ fp) = q"
    using div_mult_mod_eq [of q "10 ^ d"] by simp
  have "0 \<le> round_half_even (\<bar>v\<bar> * 10 ^ d)" by (rule round_half_even_nonneg) simp
  then have qr: "real q = real_of_int (round_half_even (\<bar>v\<bar> * 10 ^ d))" by (simp add: q_def)
  have "format_fixed d v = (if v < 0 then ''-'' else []) @ ip @ CHR ''.'' # fp"
    by (simp add: format_fixed_def Let_def q_def ip_def f0_def fp_def)
  then show ?thesis
    using dfp len val qr digits_of_all_digits [of "q div 10 ^ d"]
      digits_of_nonempty [of "q div 10 ^ d"]
    by (intro exI [of _ ip] exI [of _ fp]) (simp add: ip_def)
qed

lemma py_float_format_fixed:
  assumes "0 < d"
  shows "py_float (format_fixed d v) = Some (overflow_to_inf (round_to d v))"
proof -
  obtain ip fp where s: "format_fixed d v = (if v < 0 then ''-'' else []) @ ip @ CHR ''.'' # fp"
    and ip: "list_all is_digit ip" and fp: "list_all is_digit fp" and ne: "ip \<noteq> []"
    and len: "length fp = d"
    and val: "real (nat_of_digits (ip @ fp)) = real_of_int (round_half_even (\<bar>v\<bar> * 10 ^ d))"
    using format_fixed_shape [OF assms, of v] by blast
  have nf: "fp \<noteq> []" using len assms by auto
  show ?thesis
    using py_float_fixed [OF ip fp ne nf, of "v < 0"] s len val
    by (simp add: round_to_def)
qed

lemma round_to_error: "\<bar>round_to d v - v\<bar> \<le> 1 / (2 * 10 ^ d)"
proof -
  define x where "x = \<bar>v\<bar> * 10 ^ d"
  have e: "\<bar>real_of_int (round_half_even x) - x\<bar> \<le> 1 / 2" by (rule round_half_even_error)
  have p: "(0::real) < 10 ^ d" by simp
  have "\<bar>real_of_int (round_half_even x) / 10 ^ d - \<bar>v\<bar>\<bar>
        = \<bar>real_of_int (round_half_even x) - x\<bar> / 10 ^ d"
    using p by (simp add: x_def field_simps abs_mult)
  also have "\<dots> \<le> (1 / 2) / 10 ^ d" using e p by (intro divide_right_mono) simp_all
  finally have m: "\<bar>real_of_int (round_half_even x) / 10 ^ d - \<bar>v\<bar>\<bar> \<le> 1 / (2 * 10 ^ d)"
    by simp
  show ?thesis
  proof (cases "v < 0")
    case True
    then have "round_to d v - v = - (real_of_int (round_half_even x) / 10 ^ d - \<bar>v\<bar>)"
      by (simp add: round_to_def x_def)
    with m show ?thesis by (simp only: abs_minus_cancel)
  next
    case False
    then have "round_to d v - v = real_of_int (round_half_even x) / 10 ^ d - \<bar>v\<bar>"
      by (simp add: round_to_def x_def)
    with m show ?thesis by simp
  qed
qed
subsection \<open>Weight serializer\<close>

lemma format_fixed_zero6: "format_fixed 6 0 = ''0.000000''"
  by (simp add: format_eval)

lemma format_fixed_no_comma:
  assumes "0 < d"
  shows "CHR '','' \<notin> set (format_fixed d v)"
proof -
  obtain ip fp where s: "format_fixed d v = (if v < 0 then ''-'' else []) @ ip @ CHR ''.'' # fp"
    and ip: "list_all is_digit ip" and fp: "list_all is_digit fp"
    using format_fixed_shape [OF assms, of v] by blast
  have "\<And>c. c \<in> set ip \<union> set fp \<Longrightarrow> c \<noteq> CHR '',''"
    using ip fp is_digit_not_special by (auto simp add: list_all_iff)
  with s show ?thesis by auto
qed

lemma has_decimals_format_fixed:
  assumes "0 < d"
  shows "has_decimals d (format_fixed d v)"
proof -
  obtain ip fp where s: "format_fixed d v = (if v < 0 then ''-'' else []) @ ip @ CHR ''.'' # fp"
    and ip: "list_all is_digit ip" and fp: "list_all is_digit fp" and ne: "ip \<noteq> []"
    and len: "length fp = d"
    using format_fixed_shape [OF assms, of v] by blast
  define u where "u = ip @ CHR ''.'' # fp"
  have hd_u: "is_digit (hd u)" using ne ip by (cases ip) (auto simp add: u_def)
  have sg: "snd (split_sign (format_fixed d v)) = u"
    using s hd_u is_digit_not_special [of "hd u"]
    by (cases u) (auto simp add: split_sign_def u_def)
  have "format_fixed d v = u \<or> format_fixed d v = CHR ''-'' # u"
    using s by (auto simp add: u_def)
  then show ?thesis
    using sg ip fp ne len
    by (simp add: has_decimals_def Let_def u_def takeWhile_digits_point dropWhile_digits_point
        point_not_digit)
qed

lemma split_on_none: "d \<notin> set p \<Longrightarrow> split_on d p = [p]"
  by (induction p) auto

lemma split_on_append: "d \<notin> set p \<Longrightarrow> split_on d (p @ d # r) = p # split_on d r"
  by (induction p) auto

lemma split_on_join:
  "fs \<noteq> [] \<Longrightarrow> \<forall>f \<in> set fs. d \<notin> set f \<Longrightarrow> split_on d (join [d] fs) = fs"
proof (induction fs)
  case Nil
  then show ?case by simp
next
  case (Cons p ps)
  show ?case
  proof (cases ps)
    case Nil
    with Cons.prems show ?thesis by (simp add: split_on_none)
  next
    case (Cons q qs)
    with Cons.prems Cons.IH show ?thesis by (simp add: split_on_append)
  qed
qed

lemma join_snoc: "fs \<noteq> [] \<Longrightarrow> join sep fs @ sep @ x = join sep (fs @ [x])"
proof (induction fs)
  case Nil
  then show ?case by simp
next
  case (Cons p ps)
  then show ?case by (cases ps) simp_all
qed

lemma emit_W_line_eq:
  "emit_W_line w b =
     ''W:'' @ join '','' (format_fixed 6 w # replicate 9 ''0.000000'' @ [format_fixed 6 b])"
proof -
  have "(replicate 10 (0::real))[0 := w] = w # replicate 9 0"
    by (simp add: numeral_eq_Suc)
  then have "map (format_fixed 6) ((replicate 10 0)[0 := w])
             = format_fixed 6 w # replicate 9 ''0.000000''"
    by (simp add: format_fixed_zero6)
  then show ?thesis
    using join_snoc [of "format_fixed 6 w # replicate 9 ''0.000000''" "'',''" "format_fixed 6 b"]
    by (simp add: emit_W_line_def Let_def)
qed

lemma emit_W_line_fields:
  "split_on CHR '','' (drop 2 (emit_W_line w b))
     = format_fixed 6 w # replicate 9 ''0.000000'' @ [format_fixed 6 b]"
proof -
  have z: "CHR '','' \<notin> set ''0.000000''" by simp
  have "\<forall>f \<in> set (format_fixed 6 w # replicate 9 ''0.000000'' @ [format_fixed 6 b]).
          CHR '','' \<notin> set f"
    using format_fixed_no_comma [of 6 w] format_fixed_no_comma [of 6 b] z by auto
  then show ?thesis
    using split_on_join [of "format_fixed 6 w # replicate 9 ''0.000000'' @ [format_fixed 6 b]"
        "CHR '',''"]
    by (simp add: emit_W_line_eq)
qed

text \<open>
  Claim C5. The weight line is \<^verbatim>\<open>W:\<close> followed by exactly eleven fields separated by
  commas; every field is in fixed-point form with exactly six decimals; field 0 is the
  weight, fields 1 to 9 are the text \<^verbatim>\<open>0.000000\<close>, field 10 is the bias. Weight and bias
  appear rounded to six decimals: read back as numbers the two fields are within
  \<open>1 / 2000000\<close> of \<open>w\<close> and \<open>b\<close>.
\<close>

theorem emit_W_line_spec:
  "take 2 (emit_W_line w b) = ''W:''
   \<and> split_on CHR '','' (drop 2 (emit_W_line w b))
       = format_fixed 6 w # replicate 9 ''0.000000'' @ [format_fixed 6 b]
   \<and> length (split_on CHR '','' (drop 2 (emit_W_line w b))) = 11
   \<and> list_all (has_decimals 6) (split_on CHR '','' (drop 2 (emit_W_line w b)))
   \<and> split_on CHR '','' (drop 2 (emit_W_line w b)) ! 0 = format_fixed 6 w
   \<and> (\<forall>i. 1 \<le> i \<and> i \<le> 9 \<longrightarrow>
        split_on CHR '','' (drop 2 (emit_W_line w b)) ! i = ''0.000000'')
   \<and> split_on CHR '','' (drop 2 (emit_W_line w b)) ! 10 = format_fixed 6 b
   \<and> py_float (format_fixed 6 w) = Some (overflow_to_inf (round_to 6 w))
   \<and> py_float (format_fixed 6 b) = Some (overflow_to_inf (round_to 6 b))
   \<and> \<bar>round_to 6 w - w\<bar> \<le> 1 / 2000000 \<and> \<bar>round_to 6 b - b\<bar> \<le> 1 / 2000000"
proof -
  let ?fs = "split_on CHR '','' (drop 2 (emit_W_line w b))"
  have f: "?fs = format_fixed 6 w # replicate 9 ''0.000000'' @ [format_fixed 6 b]"
    by (rule emit_W_line_fields)
  have a: "take 2 (emit_W_line w b) = ''W:''" by (simp add: emit_W_line_eq)
  have z: "has_decimals 6 ''0.000000''"
    using has_decimals_format_fixed [of 6 0] by (simp add: format_fixed_zero6)
  have c: "list_all (has_decimals 6) ?fs"
    using z has_decimals_format_fixed [of 6 w] has_decimals_format_fixed [of 6 b]
    by (simp add: f list_all_iff)
  have d: "\<forall>i. 1 \<le> i \<and> i \<le> 9 \<longrightarrow> ?fs ! i = ''0.000000''"
  proof (intro allI impI)
    fix i :: nat assume "1 \<le> i \<and> i \<le> 9"
    then obtain j where j: "i = Suc j" "j < 9" by (cases i) auto
    then show "?fs ! i = ''0.000000''" by (simp add: f nth_append)
  qed
  have e: "?fs ! 10 = format_fixed 6 b"
  proof -
    have "(replicate 9 ''0.000000'' @ [format_fixed 6 b]) ! 9 = format_fixed 6 b"
      using nth_append_length [of "replicate 9 ''0.000000''" "format_fixed 6 b" "[]"] by simp
    then show ?thesis by (simp add: f)
  qed
  have g: "\<bar>round_to 6 w - w\<bar> \<le> 1 / 2000000 \<and> \<bar>round_to 6 b - b\<bar> \<le> 1 / 2000000"
    using round_to_error [of 6 w] round_to_error [of 6 b] by simp
  show ?thesis
    using a f c d e g py_float_format_fixed [of 6 w] py_float_format_fixed [of 6 b]
    by simp
qed

lemma emit_W_line_example:
  "emit_W_line (- (123456789 / 100000000)) (1 / 2) =
     ''W:-1.234568,0.000000,0.000000,0.000000,0.000000,0.000000,0.000000,0.000000,0.000000,0.000000,0.500000''"
  by (simp add: emit_W_line_def format_eval)

theorem emit_W_line_spec_witness:
  "emit_W_line (- (123456789 / 100000000)) (1 / 2) =
     ''W:-1.234568,0.000000,0.000000,0.000000,0.000000,0.000000,0.000000,0.000000,0.000000,0.000000,0.500000''
   \<and> length (split_on CHR '','' (drop 2 (emit_W_line (- (123456789 / 100000000)) (1 / 2)))) = 11
   \<and> split_on CHR '','' (drop 2 (emit_W_line (- (123456789 / 100000000)) (1 / 2))) ! 0
       = ''-1.234568''
   \<and> split_on CHR '','' (drop 2 (emit_W_line (- (123456789 / 100000000)) (1 / 2))) ! 10
       = ''0.500000''"
proof -
  have fw: "format_fixed 6 (- (123456789 / 100000000)) = ''-1.234568''"
    by (simp add: format_eval)
  have fb: "format_fixed 6 (1 / 2) = ''0.500000''"
    by (simp add: format_eval)
  from emit_W_line_spec [of "- (123456789 / 100000000)" "1 / 2"] fw fb emit_W_line_example
  show ?thesis by simp
qed

subsection \<open>Sample store\<close>

lemma py_int_str_int: "py_int (str_int n) = Some n"
proof -
  define ds where "ds = digits_of (nat \<bar>n\<bar>)"
  define s where "s = (if n < 0 then ''-'' else []) @ ds"
  have dig: "list_all is_digit ds" and ne: "ds \<noteq> []"
    by (simp_all add: ds_def digits_of_all_digits digits_of_nonempty)
  have all: "\<And>c. c \<in> set ds \<Longrightarrow> is_digit c" using dig by (simp add: list_all_iff)
  have hd_ds: "is_digit (hd ds)" and last_ds: "is_digit (last ds)" using ne all by simp_all
  have hd_s: "\<not> is_num_space (hd s)"
    using hd_ds ne is_digit_not_special [of "hd ds"]
    by (cases "n < 0") (auto simp add: s_def is_num_space_def)
  have last_s: "\<not> is_num_space (last s)"
    using last_ds ne is_digit_not_special [of "last ds"] by (simp add: s_def)
  have strip: "strip_with is_num_space s = s"
    using strip_with_id [of s is_num_space] hd_s last_s ne by (simp add: s_def)
  have sign: "split_sign s = (n < 0, ds)"
    using hd_ds ne is_digit_not_special [of "hd ds"]
    by (cases ds) (auto simp add: s_def split_sign_def)
  have no_us: "CHR ''_'' \<notin> set ds" using all is_digit_not_special by auto
  have "py_int s = Some (if n < 0 then - int (nat_of_digits ds) else int (nat_of_digits ds))"
    using strip sign no_us ne dig
    by (simp add: py_int_def Let_def drop_underscores_id underscores_ok_none)
  also have "\<dots> = Some n" by (simp add: ds_def nat_of_digits_digits_of)
  finally show ?thesis by (simp add: s_def ds_def str_int_def)
qed

lemma dict_get_saved:
  "dict_get (dict_row [''echo_us'', ''label'', ''fresh_anchor'', ''spoil_anchor''] [a, b, c, d])
     ''echo_us'' = Some (Some a)
   \<and> dict_get (dict_row [''echo_us'', ''label'', ''fresh_anchor'', ''spoil_anchor''] [a, b, c, d])
     ''label'' = Some (Some b)
   \<and> dict_get (dict_row [''echo_us'', ''label'', ''fresh_anchor'', ''spoil_anchor''] [a, b, c, d])
     ''fresh_anchor'' = Some (Some c)
   \<and> dict_get (dict_row [''echo_us'', ''label'', ''fresh_anchor'', ''spoil_anchor''] [a, b, c, d])
     ''spoil_anchor'' = Some (Some d)"
  by (simp add: dict_get_def dict_row_def)

lemma load_row_saved:
  "load_row (dict_row [''echo_us'', ''label'', ''fresh_anchor'', ''spoil_anchor'']
       [format_fixed 3 e, str_int l, format_fixed 3 fa, format_fixed 3 sa])
   = Inr \<lparr>echo_us = overflow_to_inf (round_to 3 e), label = l,
          fresh_anchor = overflow_to_inf (round_to 3 fa),
          spoil_anchor = overflow_to_inf (round_to 3 sa)\<rparr>"
  using dict_get_saved [of "format_fixed 3 e" "str_int l" "format_fixed 3 fa" "format_fixed 3 sa"]
  by (simp add: load_row_def float_of_value_def int_of_value_def py_float_format_fixed
      py_int_str_int)

lemma load_rows_saved:
  "load_rows [''echo_us'', ''label'', ''fresh_anchor'', ''spoil_anchor'']
     (map (\<lambda>r. [format_fixed 3 (echo_us r), str_int (label r),
                  format_fixed 3 (fresh_anchor r), format_fixed 3 (spoil_anchor r)]) rs)
   = Inr (map loaded rs)"
  by (induction rs) (simp_all add: load_row_saved loaded_def)

lemma load_save: "load_csv (save_csv rs) = Inr (map loaded rs)"
  by (simp add: load_csv_def save_csv_def load_rows_saved)

lemma round_to_in_range:
  assumes "\<bar>x\<bar> \<le> 2 ^ 1024 - 2 ^ 971"
  shows "overflow_to_inf (round_to 3 x) = Finite (round_to 3 x)"
proof -
  have e: "\<bar>round_to 3 x - x\<bar> \<le> 1 / 2000" using round_to_error [of 3 x] by simp
  have "\<bar>round_to 3 x\<bar> \<le> \<bar>x\<bar> + \<bar>round_to 3 x - x\<bar>" by linarith
  with e assms have b: "\<bar>round_to 3 x\<bar> \<le> 2 ^ 1024 - 2 ^ 971 + 1 / 2000" by linarith
  have "(2::real) ^ 1024 - 2 ^ 971 + 1 / 2000 < 2 ^ 1024 - 2 ^ 970" by simp
  with b have "\<bar>round_to 3 x\<bar> < 2 ^ 1024 - 2 ^ 970" by linarith
  then show ?thesis by (simp add: overflow_to_inf_def)
qed
text \<open>
  Claim C4. Loading what \<open>save_csv\<close> wrote raises nothing and returns the samples in
  the order they were saved, one per saved sample: the label is the saved label, and each
  float field is the saved value rounded to three decimals. For a value in the range of
  a double that rounded value is finite, and it differs from the saved value by at most
  \<open>1 / 2000\<close>.
\<close>

theorem store_round_trip:
  "load_csv (save_csv rs) = Inr (map loaded rs)
   \<and> length (map loaded rs) = length rs
   \<and> (\<forall>i < length rs.
         label (map loaded rs ! i) = label (rs ! i)
         \<and> echo_us (map loaded rs ! i) = overflow_to_inf (round_to 3 (echo_us (rs ! i)))
         \<and> fresh_anchor (map loaded rs ! i) = overflow_to_inf (round_to 3 (fresh_anchor (rs ! i)))
         \<and> spoil_anchor (map loaded rs ! i) = overflow_to_inf (round_to 3 (spoil_anchor (rs ! i))))
   \<and> (\<forall>x. \<bar>x\<bar> \<le> 2 ^ 1024 - 2 ^ 971 \<longrightarrow>
         overflow_to_inf (round_to 3 x) = Finite (round_to 3 x))
   \<and> (\<forall>x. \<bar>round_to 3 x - x\<bar> \<le> 1 / 2000)"
proof -
  have a: "load_csv (save_csv rs) = Inr (map loaded rs)" by (rule load_save)
  have b: "\<forall>i < length rs.
         label (map loaded rs ! i) = label (rs ! i)
         \<and> echo_us (map loaded rs ! i) = overflow_to_inf (round_to 3 (echo_us (rs ! i)))
         \<and> fresh_anchor (map loaded rs ! i) = overflow_to_inf (round_to 3 (fresh_anchor (rs ! i)))
         \<and> spoil_anchor (map loaded rs ! i) = overflow_to_inf (round_to 3 (spoil_anchor (rs ! i)))"
    by (simp add: loaded_def)
  have c: "\<forall>x. \<bar>x\<bar> \<le> 2 ^ 1024 - 2 ^ 971 \<longrightarrow>
         overflow_to_inf (round_to 3 x) = Finite (round_to 3 x)"
    using round_to_in_range by blast
  have d: "\<forall>x. \<bar>round_to 3 x - x\<bar> \<le> 1 / 2000"
    using round_to_error [of 3] by simp
  from a b c d show ?thesis by simp
qed

lemma save_csv_example:
  "save_csv [\<lparr>echo_us = 200012345 / 100000, label = 1, fresh_anchor = 1400, spoil_anchor = 2600\<rparr>,
             \<lparr>echo_us = 3 / 16, label = 0, fresh_anchor = - (1 / 10000), spoil_anchor = 2600\<rparr>]
   = [[''echo_us'', ''label'', ''fresh_anchor'', ''spoil_anchor''],
      [''2000.123'', ''1'', ''1400.000'', ''2600.000''],
      [''0.188'', ''0'', ''-0.000'', ''2600.000'']]"
  by (simp add: save_csv_def str_int_def format_eval)

lemma round_to_examples:
  "round_to 3 (200012345 / 100000) = 2000123 / 1000 \<and> round_to 3 1400 = 1400
   \<and> round_to 3 2600 = 2600 \<and> round_to 3 (3 / 16) = 188 / 1000
   \<and> round_to 3 (- (1 / 10000)) = 0"
  by (simp add: round_to_def round_half_even_def)

theorem store_round_trip_witness:
  "load_csv
     [[''echo_us'', ''label'', ''fresh_anchor'', ''spoil_anchor''],
      [''2000.123'', ''1'', ''1400.000'', ''2600.000''],
      [''0.188'', ''0'', ''-0.000'', ''2600.000'']]
   = Inr [\<lparr>echo_us = Finite (2000123 / 1000), label = 1, fresh_anchor = Finite 1400,
            spoil_anchor = Finite 2600\<rparr>,
          \<lparr>echo_us = Finite (188 / 1000), label = 0, fresh_anchor = Finite 0,
            spoil_anchor = Finite 2600\<rparr>]"
proof -
  have r: "overflow_to_inf (2000123 / 1000) = Finite (2000123 / 1000)
           \<and> overflow_to_inf 1400 = Finite 1400 \<and> overflow_to_inf 2600 = Finite 2600
           \<and> overflow_to_inf (188 / 1000) = Finite (188 / 1000) \<and> overflow_to_inf 0 = Finite 0"
    by (simp add: overflow_to_inf_def)
  from store_round_trip [of
      "[\<lparr>echo_us = 200012345 / 100000, label = 1, fresh_anchor = 1400, spoil_anchor = 2600\<rparr>,
        \<lparr>echo_us = 3 / 16, label = 0, fresh_anchor = - (1 / 10000), spoil_anchor = 2600\<rparr>]"]
    save_csv_example round_to_examples r
  show ?thesis by (simp add: loaded_def)
qed

end
